theory Spec2Isabelle
  imports Complex_Main "HOL-Library.Sublist"
begin

section \<open>Python values\<close>

text \<open>
  The exceptions that can leave \<open>olx_parser.py\<close>: \<open>float\<close> and \<open>furl\<close> raise
  \<open>ValueError\<close>, \<open>card_data[0]\<close> raises \<open>IndexError\<close>, and \<open>requests.get\<close> raises
  a \<open>RequestException\<close> on a transport failure. The source has no \<open>try\<close> block.
\<close>

datatype py_error = ValueError | IndexError | RequestException

text \<open>
  A Python float. \<open>Finite q\<close> stands for the double nearest to the rational \<open>q\<close>
  (rounding, overflow to infinity and the sign of zero are not modelled).
\<close>

datatype pyfloat = Finite rat | PosInf | NegInf | NaN

datatype pyval = PNone | PStr string | PInt int | PFloat pyfloat

type_synonym pydict = "(string \<times> pyval) list"

text \<open>Truth value testing: \<open>None\<close>, the empty string and a numeric zero are false.\<close>

fun truthy :: "pyval \<Rightarrow> bool" where
  "truthy PNone = False"
| "truthy (PStr s) = (s \<noteq> [])"
| "truthy (PInt i) = (i \<noteq> 0)"
| "truthy (PFloat (Finite q)) = (q \<noteq> 0)"
| "truthy (PFloat PosInf) = True"
| "truthy (PFloat NegInf) = True"
| "truthy (PFloat NaN) = True"

text \<open>The same test on a value that is a \<open>str\<close> or \<open>None\<close>.\<close>

fun truthy_str :: "string option \<Rightarrow> bool" where
  "truthy_str None = False"
| "truthy_str (Some s) = (s \<noteq> [])"

fun str_val :: "string option \<Rightarrow> pyval" where
  "str_val None = PNone"
| "str_val (Some s) = PStr s"

section \<open>Strings\<close>

text \<open>
  A \<open>str\<close> is its UTF-8 byte sequence. \<open>str.replace\<close> and \<open>str.split\<close> with a
  well-formed needle find the same occurrences on bytes as on code points.
\<close>

text \<open>\<open>s.replace(old, new)\<close>: every non-overlapping occurrence, from the left.\<close>

function py_replace :: "string \<Rightarrow> string \<Rightarrow> string \<Rightarrow> string" where
  "py_replace old new [] = (if old = [] then new else [])"
| "py_replace old new (c # cs) =
     (if old = [] then new @ c # py_replace old new cs
      else if prefix old (c # cs) then new @ py_replace old new (drop (length old) (c # cs))
      else c # py_replace old new cs)"
  by pat_completeness auto
termination
  by (relation "measure (\<lambda>(old, new, s). length s)") auto

text \<open>\<open>s.split(sep)\<close>: the pieces between the occurrences of \<open>sep\<close>; an empty separator raises.\<close>

function split_from :: "string \<Rightarrow> string \<Rightarrow> string \<Rightarrow> string list" where
  "split_from sep acc [] = [rev acc]"
| "split_from sep acc (c # cs) =
     (if sep \<noteq> [] \<and> prefix sep (c # cs)
      then rev acc # split_from sep [] (drop (length sep) (c # cs))
      else split_from sep (c # acc) cs)"
  by pat_completeness auto
termination
  by (relation "measure (\<lambda>(sep, acc, s). length s)") auto

definition py_split :: "string \<Rightarrow> string \<Rightarrow> py_error + string list" where
  "py_split s sep = (if sep = [] then Inl ValueError else Inr (split_from sep [] s))"

text \<open>\<open>xs[0]\<close>.\<close>

definition index0 :: "'a list \<Rightarrow> py_error + 'a" where
  "index0 xs = (case xs of [] \<Rightarrow> Inl IndexError | x # _ \<Rightarrow> Inr x)"

subsection \<open>The builtin \<open>float\<close> on a string\<close>

text \<open>
  \<open>float(s)\<close> strips surrounding whitespace and accepts
  \<^verbatim>\<open>[sign] (number [exponent] | "inf" | "infinity" | "nan")\<close> where
  \<^verbatim>\<open>number ::= [digitpart] "." digitpart | digitpart ["."]\<close> and
  \<^verbatim>\<open>digitpart ::= digit (["_"] digit)*\<close>, letters in either case; anything else raises
  \<open>ValueError\<close>. The ASCII part of this grammar is modelled; digits and blanks outside
  ASCII are not.
\<close>

definition is_space :: "char \<Rightarrow> bool" where
  "is_space c = (of_char c \<in> set [9, 10, 11, 12, 13, 28, 29, 30, 31, 32 :: nat])"

definition py_strip :: "string \<Rightarrow> string" where
  "py_strip s = rev (dropWhile is_space (rev (dropWhile is_space s)))"

definition digit_val :: "char \<Rightarrow> nat option" where
  "digit_val c = (let n = of_char c :: nat in if 48 \<le> n \<and> n \<le> 57 then Some (n - 48) else None)"

text \<open>The rest of a digitpart, after its first digit: the digits read and what is left.\<close>

fun digits_tail :: "string \<Rightarrow> nat list \<times> string" where
  "digits_tail [] = ([], [])"
| "digits_tail [c] = (case digit_val c of Some d \<Rightarrow> ([d], []) | None \<Rightarrow> ([], [c]))"
| "digits_tail (c # c' # cs) =
     (case digit_val c of
        Some d \<Rightarrow> (case digits_tail (c' # cs) of (ds, r) \<Rightarrow> (d # ds, r))
      | None \<Rightarrow>
          (if c = CHR ''_'' then
             (case digit_val c' of
                Some d \<Rightarrow> (case digits_tail cs of (ds, r) \<Rightarrow> (d # ds, r))
              | None \<Rightarrow> ([], c # c' # cs))
           else ([], c # c' # cs)))"

definition digitpart :: "string \<Rightarrow> (nat list \<times> string) option" where
  "digitpart s =
     (case s of
        [] \<Rightarrow> None
      | c # cs \<Rightarrow>
          (case digit_val c of
             None \<Rightarrow> None
           | Some d \<Rightarrow> (case digits_tail cs of (ds, r) \<Rightarrow> Some (d # ds, r))))"

definition digits_value :: "nat list \<Rightarrow> int" where
  "digits_value ds = foldl (\<lambda>a d. 10 * a + int d) 0 ds"

text \<open>A number: the digits of the integer and fraction parts, then what is left.\<close>

definition number :: "string \<Rightarrow> (nat list \<times> nat list \<times> string) option" where
  "number s =
     (case digitpart s of
        Some (ip, r) \<Rightarrow>
          (case r of
             c # r' \<Rightarrow>
               (if c = CHR ''.'' then
                  (case digitpart r' of
                     Some (fp, r'') \<Rightarrow> Some (ip, fp, r'')
                   | None \<Rightarrow> Some (ip, [], r'))
                else Some (ip, [], r))
           | [] \<Rightarrow> Some (ip, [], []))
      | None \<Rightarrow>
          (case s of
             c # r' \<Rightarrow>
               (if c = CHR ''.'' then
                  (case digitpart r' of
                     Some (fp, r'') \<Rightarrow> Some ([], fp, r'')
                   | None \<Rightarrow> None)
                else None)
           | [] \<Rightarrow> None))"

text \<open>A sign: \<open>-1\<close> or \<open>1\<close>, then what is left.\<close>

definition sign :: "string \<Rightarrow> int \<times> string" where
  "sign s =
     (case s of
        c # cs \<Rightarrow> (if c = CHR ''-'' then (- 1, cs) else if c = CHR ''+'' then (1, cs) else (1, s))
      | [] \<Rightarrow> (1, s))"

text \<open>An exponent, which must reach the end of the string; none is exponent \<open>0\<close>.\<close>

definition exponent :: "string \<Rightarrow> int option" where
  "exponent s =
     (case s of
        [] \<Rightarrow> Some 0
      | c # cs \<Rightarrow>
          (if c = CHR ''e'' \<or> c = CHR ''E'' then
             (case sign cs of
                (sg, r) \<Rightarrow>
                  (case digitpart r of
                     Some (ds, []) \<Rightarrow> Some (sg * digits_value ds)
                   | Some (ds, _ # _) \<Rightarrow> None
                   | None \<Rightarrow> None))
           else None))"

definition scale10 :: "int \<Rightarrow> int \<Rightarrow> rat" where
  "scale10 m e = (if 0 \<le> e then of_int m * 10 ^ nat e else of_int m / 10 ^ nat (- e))"

definition lower :: "string \<Rightarrow> string" where
  "lower s = map (\<lambda>c. let n = of_char c :: nat in if 65 \<le> n \<and> n \<le> 90 then char_of (n + 32) else c) s"

definition py_float :: "string \<Rightarrow> py_error + pyfloat" where
  "py_float s =
     (case sign (py_strip s) of
        (sg, r) \<Rightarrow>
          (if lower r = ''inf'' \<or> lower r = ''infinity''
           then Inr (if sg < 0 then NegInf else PosInf)
           else if lower r = ''nan'' then Inr NaN
           else
             (case number r of
                None \<Rightarrow> Inl ValueError
              | Some (ip, fp, r') \<Rightarrow>
                  (case exponent r' of
                     None \<Rightarrow> Inl ValueError
                   | Some e \<Rightarrow>
                       Inr (Finite (scale10 (sg * digits_value (ip @ fp)) (e - int (length fp))))))))"

section \<open>The HTML tree (\<open>bs4\<close>)\<close>

text \<open>
  A parsed document: a text node, or a tag with its name, its attributes other than
  \<open>class\<close> (a dict), the list of its classes, and its children in document order.
\<close>

datatype node = Text string | Tag string "(string \<times> string) list" "string list" "node list"

text \<open>All nodes below a node, in document order.\<close>

fun descendants :: "node \<Rightarrow> node list" where
  "descendants (Text s) = []"
| "descendants (Tag n a c ch) = concat (map (\<lambda>x. x # descendants x) ch)"

fun join_sp :: "string list \<Rightarrow> string" where
  "join_sp [] = []"
| "join_sp [x] = x"
| "join_sp (x # y # ys) = x @ '' '' @ join_sp (y # ys)"

text \<open>
  The \<open>class_\<close> filter: the wanted string is one of the tag's classes, or it is the whole
  class attribute. A tag with no class never matches.
\<close>

definition class_matches :: "string \<Rightarrow> string list \<Rightarrow> bool" where
  "class_matches cls classes = (classes \<noteq> [] \<and> (cls \<in> set classes \<or> join_sp classes = cls))"

fun matches :: "string \<Rightarrow> string option \<Rightarrow> node \<Rightarrow> bool" where
  "matches name cls (Text s) = False"
| "matches name cls (Tag n a c ch) =
     (n = name \<and> (case cls of None \<Rightarrow> True | Some k \<Rightarrow> class_matches k c))"

text \<open>\<open>node.findAll(name, class_=cls)\<close> and \<open>node.find(name, class_=cls)\<close>.\<close>

definition findAll :: "node \<Rightarrow> string \<Rightarrow> string option \<Rightarrow> node list" where
  "findAll nd name cls = filter (matches name cls) (descendants nd)"

definition find_tag :: "node \<Rightarrow> string \<Rightarrow> string option \<Rightarrow> node option" where
  "find_tag nd name cls = (case findAll nd name cls of [] \<Rightarrow> None | x # _ \<Rightarrow> Some x)"

text \<open>\<open>tag.get(key)\<close>: the attribute, or \<open>None\<close>.\<close>

fun get_attr :: "node \<Rightarrow> string \<Rightarrow> string option" where
  "get_attr (Text s) key = None"
| "get_attr (Tag n a c ch) key = map_of a key"

text \<open>\<open>tag.get_text()\<close>: all the text below the tag, concatenated.\<close>

fun get_text :: "node \<Rightarrow> string" where
  "get_text (Text s) = s"
| "get_text (Tag n a c ch) = concat (map get_text ch)"

text \<open>
  \<open>tag == "some string"\<close>: \<open>Tag.__eq__\<close> compares name, attributes and contents and is
  false against an object that has none of them, so it is false against every \<open>str\<close>.
\<close>

definition tag_eq_str :: "node \<Rightarrow> string \<Rightarrow> bool" where
  "tag_eq_str nd s = False"

section \<open>The collaborators: URL library and HTTP transport\<close>

text \<open>
  A \<open>furl\<close> object: scheme, host, path and the query arguments in order.
  \<open>f.set(path=p)\<close> replaces the path, \<open>f.add(args=d)\<close> appends the items of \<open>d\<close> to
  the query.
\<close>

record furl =
  furl_scheme :: "string option"
  furl_host :: "string option"
  furl_path :: string
  furl_args :: pydict

definition set_path :: "furl \<Rightarrow> string \<Rightarrow> furl" where
  "set_path f p = f\<lparr>furl_path := p\<rparr>"

definition add_args :: "furl \<Rightarrow> pydict \<Rightarrow> furl" where
  "add_args f d = f\<lparr>furl_args := furl_args f @ d\<rparr>"

text \<open>A response of \<open>requests.get\<close>: the status code and the tree parsed from its text.\<close>

record response =
  status_code :: int
  body :: node

text \<open>
  What the program is run against: the URL library's parser (it raises \<open>ValueError\<close> on
  a malformed host or port) and printer, and the network, which answers the \<open>n\<close>-th
  request of the run for a URL with a response or a transport error.
\<close>

record env =
  furl_load :: "string \<Rightarrow> py_error + furl"
  furl_url :: "furl \<Rightarrow> string"
  requests_get :: "nat \<Rightarrow> string \<Rightarrow> py_error + response"

text \<open>\<open>furl(url=u)\<close>: \<open>None\<close> is loaded as the empty string.\<close>

definition furl_new :: "env \<Rightarrow> string option \<Rightarrow> py_error + furl" where
  "furl_new E u = furl_load E (case u of None \<Rightarrow> [] | Some s \<Rightarrow> s)"

section \<open>\<open>OlxParser\<close>\<close>

text \<open>What \<open>logging\<close> receives, by call site.\<close>

datatype log_entry =
    Error_no_response int
  | Error_no_cards
  | Warning_not_all_data
  | Info_collected nat nat
  | Info_csv_created

text \<open>
  An \<open>OlxParser\<close> object with the effects of its run: the log, the URLs requested, the
  CSV files written (field names and rows; the results directory and the timestamped
  file name are left out) and what \<open>pprint\<close> printed.
\<close>

record parser =
  goods_count :: int
  card_data :: "pydict list"
  print_result :: bool
  logged :: "log_entry list"
  requested :: "string list"
  files :: "(string list \<times> pydict list) list"
  printed :: "pydict list list"

definition OlxParser :: "int \<Rightarrow> bool \<Rightarrow> parser" where
  "OlxParser g p =
     \<lparr>goods_count = g, card_data = [], print_result = p, logged = [], requested = [],
      files = [], printed = []\<rparr>"

text \<open>
  How a method ends: it returns, an exception leaves it, or the model's bound on the
  number of pages is reached while the loop would go on. Each carries the object.
\<close>

datatype outcome = Returned parser | Raised py_error parser | OutOfFuel parser

fun state_of :: "outcome \<Rightarrow> parser" where
  "state_of (Returned s) = s"
| "state_of (Raised e s) = s"
| "state_of (OutOfFuel s) = s"

definition BASE_URL :: string where
  "BASE_URL = ''https://www.olx.pl''"

definition OFERTY_URL :: string where
  "OFERTY_URL = ''https://www.olx.pl/oferty/?search%5Border%5D=created_at:desc''"

text \<open>The currency literal: \<open>z\<close> and U+0142 in UTF-8.\<close>

definition zl :: string where
  "zl = [CHR ''z'', CHR 0xC5, CHR 0x82]"

definition get_url :: "env \<Rightarrow> string \<Rightarrow> string option \<Rightarrow> pydict option \<Rightarrow> py_error + string" where
  "get_url E base_url path params =
     (case furl_new E (Some base_url) of
        Inl e \<Rightarrow> Inl e
      | Inr f_url \<Rightarrow>
          (let f1 = (case path of
                       None \<Rightarrow> f_url
                     | Some p \<Rightarrow> if p \<noteq> [] then set_path f_url p else f_url);
               f2 = (case params of
                       None \<Rightarrow> f1
                     | Some d \<Rightarrow> if d \<noteq> [] then add_args f1 d else f1)
           in Inr (furl_url E f2)))"

definition is_url :: "env \<Rightarrow> string option \<Rightarrow> py_error + string option" where
  "is_url E url = (case furl_new E url of Inl e \<Rightarrow> Inl e | Inr f \<Rightarrow> Inr (furl_host f))"

text \<open>
  \<open>prepare_card_data\<close>, lines 118-122: the link of the first anchor; a link that
  \<open>is_url\<close> does not accept is resolved against \<open>BASE_URL\<close>.
\<close>

definition card_url_of :: "env \<Rightarrow> node \<Rightarrow> py_error + string option" where
  "card_url_of E crd =
     (case find_tag crd ''a'' None of
        None \<Rightarrow> Inr None
      | Some a \<Rightarrow>
          (case is_url E (get_attr a ''href'') of
             Inl e \<Rightarrow> Inl e
           | Inr h \<Rightarrow>
               if \<not> truthy_str h
               then (case get_url E BASE_URL (get_attr a ''href'') None of
                       Inl e \<Rightarrow> Inl e
                     | Inr u \<Rightarrow> Inr (Some u))
               else Inr (get_attr a ''href'')))"

text \<open>
  Lines 123-128: the source of the first image. \<open>Inr None\<close> is the \<open>return None\<close> of
  line 128, \<open>Inr (Some img_url)\<close> goes on with that value.
\<close>

definition img_url_of :: "env \<Rightarrow> node \<Rightarrow> py_error + string option option" where
  "img_url_of E crd =
     (case find_tag crd ''img'' None of
        None \<Rightarrow> Inr (Some None)
      | Some i \<Rightarrow>
          (case is_url E (get_attr i ''src'') of
             Inl e \<Rightarrow> Inl e
           | Inr h \<Rightarrow> if \<not> truthy_str h then Inr None else Inr (Some (get_attr i ''src''))))"

text \<open>Line 141: the number in the text of the price node.\<close>

definition price_of_text :: "string \<Rightarrow> py_error + pyval" where
  "price_of_text t =
     (case py_split (py_replace '','' ''.'' (py_replace '' '' [] t)) zl of
        Inl e \<Rightarrow> Inl e
      | Inr parts \<Rightarrow>
          (case index0 parts of
             Inl e \<Rightarrow> Inl e
           | Inr t0 \<Rightarrow> (case py_float t0 of Inl e \<Rightarrow> Inl e | Inr v \<Rightarrow> Inr (PFloat v))))"

text \<open>Lines 136-141: the price, looked up in the name and price container.\<close>

definition price_of :: "node \<Rightarrow> py_error + pyval" where
  "price_of name_price_div =
     (case find_tag name_price_div ''p'' (Some ''css-10b0gli er34gjf0'') of
        None \<Rightarrow> Inr PNone
      | Some price \<Rightarrow>
          if tag_eq_str price ''Zadarmo'' then Inr (PInt 0)
          else price_of_text (get_text price))"

definition prepare_card_data :: "env \<Rightarrow> node \<Rightarrow> py_error + pydict option" where
  "prepare_card_data E crd =
     (let card_id = get_attr crd ''id'' in
      case card_url_of E crd of
        Inl e \<Rightarrow> Inl e
      | Inr card_url \<Rightarrow>
          (case img_url_of E crd of
             Inl e \<Rightarrow> Inl e
           | Inr None \<Rightarrow> Inr None
           | Inr (Some img_url) \<Rightarrow>
               (case find_tag crd ''div'' (Some ''css-u2ayx9'') of
                  None \<Rightarrow> Inr None
                | Some name_price_div \<Rightarrow>
                    (let name = (case find_tag name_price_div ''h6'' (Some ''css-16v5mdi er34gjf0'') of
                                   None \<Rightarrow> PNone
                                 | Some n \<Rightarrow> PStr (get_text n))
                     in case price_of name_price_div of
                          Inl e \<Rightarrow> Inl e
                        | Inr price \<Rightarrow>
                            (let state = (case find_tag crd ''span'' (Some ''css-3lkihg'') of
                                            None \<Rightarrow> PNone
                                          | Some t \<Rightarrow> PStr (get_text t))
                             in Inr (Some
                                  [(''card_id'', str_val card_id),
                                   (''card_url'', str_val card_url),
                                   (''img_url'', str_val img_url),
                                   (''name'', name),
                                   (''price'', price),
                                   (''currency_unit'', PStr zl),
                                   (''state'', state)]))))))"

definition check_data :: "parser \<Rightarrow> pydict \<Rightarrow> parser" where
  "check_data s data =
     (if \<not> list_all truthy (map snd data) then s\<lparr>logged := logged s @ [Warning_not_all_data]\<rparr> else s)"

definition write_results :: "parser \<Rightarrow> outcome" where
  "write_results s =
     (case index0 (card_data s) of
        Inl e \<Rightarrow> Raised e s
      | Inr first \<Rightarrow>
          Returned (s\<lparr>files := files s @ [(map fst first, card_data s)],
                      logged := logged s @ [Info_csv_created]\<rparr>))"

text \<open>The \<open>for card in cards\<close> loop of \<open>get_cards\<close>, on page \<open>current_page\<close>.\<close>

fun cards_loop :: "env \<Rightarrow> nat \<Rightarrow> node list \<Rightarrow> parser \<Rightarrow> outcome" where
  "cards_loop E current_page [] s = Returned s"
| "cards_loop E current_page (crd # cards) s =
     (if int (length (card_data s)) = goods_count s then Returned s
      else
        (case prepare_card_data E crd of
           Inl e \<Rightarrow> Raised e s
         | Inr None \<Rightarrow> cards_loop E current_page cards s
         | Inr (Some data) \<Rightarrow>
             if data = [] then cards_loop E current_page cards s
             else
               (let s1 = check_data s data;
                    s2 = s1\<lparr>card_data := card_data s1 @ [data]\<rparr>;
                    s3 = s2\<lparr>logged := logged s2 @ [Info_collected (length (card_data s2)) current_page]\<rparr>
                in cards_loop E current_page cards s3)))"

text \<open>
  The \<open>while\<close> loop of \<open>get_cards\<close> and the call of \<open>write_results\<close> after it. The first
  argument bounds the number of pages still allowed; the page counter is also the number
  of requests made so far.
\<close>

fun get_cards_loop :: "nat \<Rightarrow> env \<Rightarrow> nat \<Rightarrow> parser \<Rightarrow> outcome" where
  "get_cards_loop 0 E current_page s =
     (if int (length (card_data s)) < goods_count s then OutOfFuel s else write_results s)"
| "get_cards_loop (Suc fuel) E current_page s =
     (if int (length (card_data s)) < goods_count s then
        (let page = Suc current_page;
             params = (if page > 1 then Some [(''page'', PInt (int page))] else None)
         in case get_url E OFERTY_URL None params of
              Inl e \<Rightarrow> Raised e s
            | Inr url \<Rightarrow>
                (let s1 = s\<lparr>requested := requested s @ [url]\<rparr>
                 in case requests_get E current_page url of
                      Inl e \<Rightarrow> Raised e s1
                    | Inr resp \<Rightarrow>
                        if status_code resp \<noteq> 200
                        then Returned (s1\<lparr>logged := logged s1 @ [Error_no_response (status_code resp)]\<rparr>)
                        else
                          (let cards = findAll (body resp) ''div'' (Some ''css-1sw7q4x'')
                           in if cards = []
                              then Returned (s1\<lparr>logged := logged s1 @ [Error_no_cards]\<rparr>)
                              else
                                (case cards_loop E page cards s1 of
                                   Returned s2 \<Rightarrow> get_cards_loop fuel E page s2
                                 | Raised e s2 \<Rightarrow> Raised e s2
                                 | OutOfFuel s2 \<Rightarrow> OutOfFuel s2))))
      else write_results s)"

definition get_cards :: "nat \<Rightarrow> env \<Rightarrow> parser \<Rightarrow> outcome" where
  "get_cards fuel E s = get_cards_loop fuel E 0 s"

definition handle :: "nat \<Rightarrow> env \<Rightarrow> parser \<Rightarrow> outcome" where
  "handle fuel E s =
     (case get_cards fuel E s of
        Returned s' \<Rightarrow>
          Returned (if card_data s' \<noteq> [] \<and> print_result s'
                    then s'\<lparr>printed := printed s' @ [card_data s']\<rparr> else s')
      | Raised e s' \<Rightarrow> Raised e s'
      | OutOfFuel s' \<Rightarrow> OutOfFuel s')"

section \<open>Notions of the specification\<close>

text \<open>
  The first abort condition as the code decides it: the card has an image, and \<open>is_url\<close>
  does not accept its source attribute (an absent source is classified as the empty
  string is).
\<close>

definition image_unresolved :: "env \<Rightarrow> node \<Rightarrow> bool" where
  "image_unresolved E crd =
     (case find_tag crd ''img'' None of
        None \<Rightarrow> False
      | Some i \<Rightarrow>
          (case is_url E (get_attr i ''src'') of Inl e \<Rightarrow> False | Inr h \<Rightarrow> \<not> truthy_str h))"


text \<open>The second abort condition: no name and price container.\<close>

definition container_missing :: "node \<Rightarrow> bool" where
  "container_missing crd = (find_tag crd ''div'' (Some ''css-u2ayx9'') = None)"

definition field_names :: "string list" where
  "field_names =
     [''card_id'', ''card_url'', ''img_url'', ''name'', ''price'', ''currency_unit'', ''state'']"

text \<open>
  The URL of page \<open>n\<close> (counted from 1) in the specification's words: page 1 has no page
  parameter, a later page has its number.
\<close>

definition page_url :: "env \<Rightarrow> nat \<Rightarrow> py_error + string" where
  "page_url E n =
     get_url E OFERTY_URL None (if n = 1 then None else Some [(''page'', PInt (int n))])"

text \<open>The card nodes of page \<open>n\<close> as the run is served them; none when the run stops there.\<close>

definition page_cards :: "env \<Rightarrow> nat \<Rightarrow> node list" where
  "page_cards E n =
     (case page_url E n of
        Inl e \<Rightarrow> []
      | Inr u \<Rightarrow>
          (case requests_get E (n - 1) u of
             Inl e \<Rightarrow> []
           | Inr resp \<Rightarrow>
               if status_code resp \<noteq> 200 then []
               else findAll (body resp) ''div'' (Some ''css-1sw7q4x'')))"

text \<open>
  The records of a sequence of cards, in the order of the cards: the skipped cards leave
  nothing, and the sequence ends at a card on which extraction raises.
\<close>

fun records_of :: "env \<Rightarrow> node list \<Rightarrow> pydict list" where
  "records_of E [] = []"
| "records_of E (crd # cards) =
     (case prepare_card_data E crd of
        Inl e \<Rightarrow> []
      | Inr None \<Rightarrow> records_of E cards
      | Inr (Some data) \<Rightarrow> if data = [] then records_of E cards else data # records_of E cards)"

text \<open>An aborted run is one that logged an error.\<close>

fun is_error_entry :: "log_entry \<Rightarrow> bool" where
  "is_error_entry (Error_no_response c) = True"
| "is_error_entry Error_no_cards = True"
| "is_error_entry Warning_not_all_data = False"
| "is_error_entry (Info_collected n p) = False"
| "is_error_entry Info_csv_created = False"

definition aborted :: "parser \<Rightarrow> bool" where
  "aborted s = list_ex is_error_entry (logged s)"

text \<open>The number written by the digits \<open>ip\<close>, a decimal point and the digits \<open>fp\<close>.\<close>

definition is_digit :: "char \<Rightarrow> bool" where
  "is_digit c = (case digit_val c of None \<Rightarrow> False | Some d \<Rightarrow> True)"

definition digit_of :: "char \<Rightarrow> nat" where
  "digit_of c = (case digit_val c of None \<Rightarrow> 0 | Some d \<Rightarrow> d)"

definition decimal :: "string \<Rightarrow> string \<Rightarrow> rat" where
  "decimal ip fp = scale10 (digits_value (map digit_of (ip @ fp))) (- int (length fp))"

text \<open>
  The sink was reached from state \<open>s\<close>: the run returned with the target met and no
  error logged, and one file holding all the records was added.
\<close>

definition wrote :: "parser \<Rightarrow> outcome \<Rightarrow> bool" where
  "wrote s out =
     (\<exists>s' first rest. out = Returned s' \<and> \<not> aborted s' \<and>
        goods_count s' \<le> int (length (card_data s')) \<and>
        card_data s' = first # rest \<and> files s' = files s @ [(map fst first, card_data s')])"

text \<open>
  A well-formed price text: up to spaces, the digits \<open>ip\<close>, then a comma and the digits
  \<open>fp\<close> unless \<open>fp\<close> is empty, then the currency suffix, then anything.
\<close>

definition wellformed_price :: "string \<Rightarrow> string \<Rightarrow> string \<Rightarrow> string \<Rightarrow> bool" where
  "wellformed_price t ip fp rest =
     (ip \<noteq> [] \<and> list_all is_digit ip \<and> list_all is_digit fp \<and>
      filter (\<lambda>c. c \<noteq> CHR '' '') t = ip @ (if fp = [] then [] else CHR '','' # fp) @ zl @ rest)"

section \<open>A small URL library and sample pages\<close>

text \<open>
  An instance of the collaborators to run the program on: URLs of the plain form
  \<^verbatim>\<open>scheme://host/path?k=v&k=v\<close> (no port, user, fragment or escaping), and a network
  given by a function.
\<close>

fun str_nat :: "nat \<Rightarrow> string" where
  "str_nat n = (if n < 10 then [char_of (48 + n)] else str_nat (n div 10) @ [char_of (48 + n mod 10)])"

declare str_nat.simps [simp del]

fun show_val :: "pyval \<Rightarrow> string" where
  "show_val (PStr s) = s"
| "show_val (PInt i) = (if i < 0 then CHR ''-'' # str_nat (nat (- i)) else str_nat (nat i))"
| "show_val PNone = ''None''"
| "show_val (PFloat x) = ''float''"

fun join_with :: "string \<Rightarrow> string list \<Rightarrow> string" where
  "join_with sep [] = []"
| "join_with sep [x] = x"
| "join_with sep (x # y # ys) = x @ sep @ join_with sep (y # ys)"

definition simple_load :: "string \<Rightarrow> py_error + furl" where
  "simple_load s =
     (let front = takeWhile (\<lambda>c. c \<noteq> CHR ''?'') s;
          qs = drop 1 (dropWhile (\<lambda>c. c \<noteq> CHR ''?'') s);
          args = (if qs = [] then []
                  else map (\<lambda>kv. (takeWhile (\<lambda>c. c \<noteq> CHR ''='') kv,
                                   PStr (drop 1 (dropWhile (\<lambda>c. c \<noteq> CHR ''='') kv))))
                           (split_from ''&'' [] qs));
          sch = takeWhile (\<lambda>c. c \<noteq> CHR '':'') front;
          after = dropWhile (\<lambda>c. c \<noteq> CHR '':'') front
      in if prefix ''://'' after
         then Inr \<lparr>furl_scheme = Some sch,
                   furl_host = Some (takeWhile (\<lambda>c. c \<noteq> CHR ''/'') (drop 3 after)),
                   furl_path = dropWhile (\<lambda>c. c \<noteq> CHR ''/'') (drop 3 after),
                   furl_args = args\<rparr>
         else Inr \<lparr>furl_scheme = None, furl_host = None, furl_path = front, furl_args = args\<rparr>)"

definition simple_url :: "furl \<Rightarrow> string" where
  "simple_url f =
     (case furl_host f of
        None \<Rightarrow> furl_path f
      | Some h \<Rightarrow>
          (case furl_scheme f of None \<Rightarrow> [] | Some sc \<Rightarrow> sc @ '':'') @ ''//'' @ h @
          (if furl_path f \<noteq> [] \<and> \<not> prefix ''/'' (furl_path f) then ''/'' @ furl_path f
           else furl_path f))
     @ (if furl_args f = [] then []
        else ''?'' @ join_with ''&'' (map (\<lambda>(k, v). k @ ''='' @ show_val v) (furl_args f)))"

definition simple_env :: "(nat \<Rightarrow> string \<Rightarrow> py_error + response) \<Rightarrow> env" where
  "simple_env net = \<lparr>furl_load = simple_load, furl_url = simple_url, requests_get = net\<rparr>"

text \<open>
  A card with an identifier, an anchor around an image with the given attributes, a
  name, a price text and a state label.
\<close>

definition image_of :: "(string \<times> string) list \<Rightarrow> node" where
  "image_of img_attrs = Tag ''img'' img_attrs [] []"

definition container_of :: "string \<Rightarrow> node" where
  "container_of price_text =
     Tag ''div'' [] [''css-u2ayx9'']
       [Tag ''h6'' [] [''css-16v5mdi'', ''er34gjf0''] [Text ''Desk''],
        Tag ''p'' [] [''css-10b0gli'', ''er34gjf0''] [Text price_text]]"

definition anchor_of :: "string \<Rightarrow> (string \<times> string) list \<Rightarrow> string \<Rightarrow> node" where
  "anchor_of ident img_attrs price_text =
     Tag ''a'' [(''href'', ''/d/oferta/'' @ ident)] [''css-rc5s2u'']
       [image_of img_attrs, container_of price_text,
        Tag ''span'' [] [''css-3lkihg''] [Text ''Used'']]"

definition sample_card :: "string \<Rightarrow> (string \<times> string) list \<Rightarrow> string \<Rightarrow> node" where
  "sample_card ident img_attrs price_text =
     Tag ''div'' [(''id'', ident)] [''css-1sw7q4x''] [anchor_of ident img_attrs price_text]"

definition desk_price :: string where
  "desk_price = ''1 200,50 '' @ zl"

definition pic :: "(string \<times> string) list" where
  "pic = [(''src'', ''https://img.cdn/pic.jpg'')]"

text \<open>A card with nothing but the name and price container, itself empty.\<close>

definition bare_card :: node where
  "bare_card = Tag ''div'' [] [''css-1sw7q4x''] [Tag ''div'' [] [''css-u2ayx9''] []]"

definition page_of :: "node list \<Rightarrow> response" where
  "page_of cards = \<lparr>status_code = 200, body = Tag ''html'' [] [] cards\<rparr>"

text \<open>A network with two pages of two cards each; any other URL is not found.\<close>

definition two_pages :: "nat \<Rightarrow> string \<Rightarrow> py_error + response" where
  "two_pages n u =
     (if u = OFERTY_URL
      then Inr (page_of [sample_card ''101'' pic desk_price, sample_card ''102'' pic (''15 '' @ zl)])
      else if u = OFERTY_URL @ ''&page=2''
      then Inr (page_of [sample_card ''201'' pic (''7,5'' @ zl), sample_card ''202'' pic (''8 '' @ zl)])
      else Inr \<lparr>status_code = 404, body = Text []\<rparr>)"

text \<open>A network on which every request is answered with a page of the given cards.\<close>

definition serving :: "node list \<Rightarrow> nat \<Rightarrow> string \<Rightarrow> py_error + response" where
  "serving cards n u = Inr (page_of cards)"

text \<open>A network on which every request is answered with status 503.\<close>

definition unavailable :: "nat \<Rightarrow> string \<Rightarrow> py_error + response" where
  "unavailable n u = Inr \<lparr>status_code = 503, body = Text []\<rparr>"

section \<open>Facts about the loops\<close>

lemma check_data_sel [simp]:
  "card_data (check_data s d) = card_data s"
  "goods_count (check_data s d) = goods_count s"
  "files (check_data s d) = files s"
  "requested (check_data s d) = requested s"
  "printed (check_data s d) = printed s"
  "print_result (check_data s d) = print_result s"
  by (simp_all add: check_data_def)

lemma aborted_check_data [simp]: "aborted (check_data s d) = aborted s"
  by (simp add: check_data_def aborted_def)

lemma prepare_fields:
  "prepare_card_data E c = Inr (Some d) \<Longrightarrow>
     map fst d = field_names \<and> map_of d ''currency_unit'' = Some (PStr zl)"
  by (auto simp: prepare_card_data_def Let_def field_names_def split: sum.splits option.splits)

lemma cards_loop_keeps:
  "goods_count (state_of (cards_loop E p cs s)) = goods_count s \<and>
   files (state_of (cards_loop E p cs s)) = files s \<and>
   requested (state_of (cards_loop E p cs s)) = requested s \<and>
   printed (state_of (cards_loop E p cs s)) = printed s \<and>
   aborted (state_of (cards_loop E p cs s)) = aborted s"
  by (induction cs arbitrary: s)
    (simp_all add: Let_def aborted_def check_data_def split: sum.splits option.splits)

lemma cards_loop_fuel: "cards_loop E p cs s \<noteq> OutOfFuel s'"
  by (induction cs arbitrary: s) (simp_all add: Let_def split: sum.splits option.splits)

lemma cards_loop_records:
  "int (length (card_data s)) \<le> goods_count s \<Longrightarrow>
   card_data (state_of (cards_loop E p cs s)) =
     take (nat (goods_count s)) (card_data s @ records_of E cs)"
proof (induction cs arbitrary: s)
  case Nil
  then show ?case by simp
next
  case (Cons c cs)
  show ?case
  proof (cases "int (length (card_data s)) = goods_count s")
    case True
    then show ?thesis by simp
  next
    case False
    with Cons.prems have lt: "int (length (card_data s)) < goods_count s" by simp
    show ?thesis
    proof (cases "prepare_card_data E c")
      case (Inl e)
      with False lt show ?thesis by simp
    next
      case (Inr r)
      show ?thesis
      proof (cases r)
        case None
        with Inr False Cons show ?thesis by simp
      next
        case (Some d)
        show ?thesis
        proof (cases "d = []")
          case True
          with Some Inr False Cons show ?thesis by simp
        next
          case dne: False
          let ?s3 = "(check_data s d)\<lparr>card_data := card_data s @ [d]\<rparr>
                       \<lparr>logged := logged (check_data s d) @ [Info_collected (Suc (length (card_data s))) p]\<rparr>"
          have le: "int (length (card_data ?s3)) \<le> goods_count ?s3" using lt by simp
          have "card_data (state_of (cards_loop E p cs ?s3)) =
                 take (nat (goods_count ?s3)) (card_data ?s3 @ records_of E cs)"
            by (rule Cons.IH [OF le])
          with Some Inr False dne show ?thesis by (simp add: Let_def)
        qed
      qed
    qed
  qed
qed

lemma write_results_sel [simp]:
  "card_data (state_of (write_results s)) = card_data s"
  "goods_count (state_of (write_results s)) = goods_count s"
  "requested (state_of (write_results s)) = requested s"
  "aborted (state_of (write_results s)) = aborted s"
  by (simp_all add: write_results_def index0_def aborted_def split: list.splits)


lemma write_results_cases:
  "(card_data s = [] \<and> write_results s = Raised IndexError s) \<or>
   (\<exists>first rest. card_data s = first # rest \<and>
      write_results s =
        Returned (s\<lparr>files := files s @ [(map fst first, card_data s)],
                    logged := logged s @ [Info_csv_created]\<rparr>))"
  by (cases "card_data s") (simp_all add: write_results_def index0_def)

lemma take_take_append: "take n (take n xs @ ys) = take n (xs @ ys)"
  by (induction xs arbitrary: n) (auto simp: take_Cons split: nat.splits)

lemma get_cards_loop_Suc:
  "get_cards_loop (Suc fuel) E p s =
     (if int (length (card_data s)) < goods_count s then
        (case page_url E (Suc p) of
           Inl e \<Rightarrow> Raised e s
         | Inr url \<Rightarrow>
             (case requests_get E p url of
                Inl e \<Rightarrow> Raised e (s\<lparr>requested := requested s @ [url]\<rparr>)
              | Inr resp \<Rightarrow>
                  if status_code resp \<noteq> 200
                  then Returned (s\<lparr>requested := requested s @ [url],
                                   logged := logged s @ [Error_no_response (status_code resp)]\<rparr>)
                  else if page_cards E (Suc p) = []
                  then Returned (s\<lparr>requested := requested s @ [url],
                                   logged := logged s @ [Error_no_cards]\<rparr>)
                  else
                    (case cards_loop E (Suc p) (page_cards E (Suc p))
                            (s\<lparr>requested := requested s @ [url]\<rparr>) of
                       Returned s2 \<Rightarrow> get_cards_loop fuel E (Suc p) s2
                     | Raised e s2 \<Rightarrow> Raised e s2
                     | OutOfFuel s2 \<Rightarrow> OutOfFuel s2)))
      else write_results s)"
proof -
  have pu: "get_url E OFERTY_URL None
              (if Suc p > 1 then Some [(''page'', PInt (int (Suc p)))] else None) =
            page_url E (Suc p)"
    by (auto simp: page_url_def)
  show ?thesis
    unfolding get_cards_loop.simps(2) Let_def pu
    by (auto simp: page_cards_def split: sum.splits)
qed

lemma get_cards_loop_rule:
  assumes fuel: "\<And>p s. int (length (card_data s)) < goods_count s \<Longrightarrow> R p s (OutOfFuel s)"
    and stop: "\<And>p s. \<not> int (length (card_data s)) < goods_count s \<Longrightarrow> R p s (write_results s)"
    and url: "\<And>p s e. int (length (card_data s)) < goods_count s \<Longrightarrow>
                 page_url E (Suc p) = Inl e \<Longrightarrow> R p s (Raised e s)"
    and net: "\<And>p s u e. int (length (card_data s)) < goods_count s \<Longrightarrow>
                 page_url E (Suc p) = Inr u \<Longrightarrow> requests_get E p u = Inl e \<Longrightarrow>
                 R p s (Raised e (s\<lparr>requested := requested s @ [u]\<rparr>))"
    and status: "\<And>p s u resp. int (length (card_data s)) < goods_count s \<Longrightarrow>
                 page_url E (Suc p) = Inr u \<Longrightarrow> requests_get E p u = Inr resp \<Longrightarrow>
                 status_code resp \<noteq> 200 \<Longrightarrow>
                 R p s (Returned (s\<lparr>requested := requested s @ [u],
                                    logged := logged s @ [Error_no_response (status_code resp)]\<rparr>))"
    and empty: "\<And>p s u resp. int (length (card_data s)) < goods_count s \<Longrightarrow>
                 page_url E (Suc p) = Inr u \<Longrightarrow> requests_get E p u = Inr resp \<Longrightarrow>
                 status_code resp = 200 \<Longrightarrow> page_cards E (Suc p) = [] \<Longrightarrow>
                 R p s (Returned (s\<lparr>requested := requested s @ [u],
                                    logged := logged s @ [Error_no_cards]\<rparr>))"
    and raise: "\<And>p s u e s2. int (length (card_data s)) < goods_count s \<Longrightarrow>
                 page_url E (Suc p) = Inr u \<Longrightarrow>
                 cards_loop E (Suc p) (page_cards E (Suc p)) (s\<lparr>requested := requested s @ [u]\<rparr>)
                   = Raised e s2 \<Longrightarrow>
                 R p s (Raised e s2)"
    and page: "\<And>p s u s2 out. int (length (card_data s)) < goods_count s \<Longrightarrow>
                 page_url E (Suc p) = Inr u \<Longrightarrow>
                 cards_loop E (Suc p) (page_cards E (Suc p)) (s\<lparr>requested := requested s @ [u]\<rparr>)
                   = Returned s2 \<Longrightarrow>
                 R (Suc p) s2 out \<Longrightarrow> R p s out"
  shows "R p s (get_cards_loop fuel E p s)"
proof (induction fuel arbitrary: p s)
  case 0
  show ?case using fuel [of s p] stop [of s p] by simp
next
  case (Suc fuel)
  show ?case
  proof (cases "int (length (card_data s)) < goods_count s")
    case False
    then show ?thesis using stop [of s p] by (simp add: get_cards_loop_Suc del: get_cards_loop.simps)
  next
    case lt: True
    show ?thesis
    proof (cases "page_url E (Suc p)")
      case (Inl e)
      with lt url [of s p e] show ?thesis
        by (simp add: get_cards_loop_Suc del: get_cards_loop.simps)
    next
      case u: (Inr u)
      show ?thesis
      proof (cases "requests_get E p u")
        case (Inl e)
        with lt u net [of s p u e] show ?thesis
          by (simp add: get_cards_loop_Suc del: get_cards_loop.simps)
      next
        case resp: (Inr resp)
        show ?thesis
        proof (cases "status_code resp \<noteq> 200")
          case True
          with lt u resp status [of s p u resp] show ?thesis
            by (simp add: get_cards_loop_Suc del: get_cards_loop.simps)
        next
          case ok: False
          show ?thesis
          proof (cases "page_cards E (Suc p) = []")
            case True
            with lt u resp ok empty [of s p u resp] show ?thesis
              by (simp add: get_cards_loop_Suc del: get_cards_loop.simps)
          next
            case ne: False
            show ?thesis
            proof (cases "cards_loop E (Suc p) (page_cards E (Suc p)) (s\<lparr>requested := requested s @ [u]\<rparr>)")
              case (Returned s2)
              have "R (Suc p) s2 (get_cards_loop fuel E (Suc p) s2)" by (rule Suc.IH)
              then have "R p s (get_cards_loop fuel E (Suc p) s2)"
                by (rule page [OF lt u Returned])
              with lt u resp ok ne Returned show ?thesis
                by (simp add: get_cards_loop_Suc del: get_cards_loop.simps)
            next
              case (Raised e s2)
              with lt u resp ok ne raise [OF lt u Raised] show ?thesis
                by (simp add: get_cards_loop_Suc del: get_cards_loop.simps)
            next
              case (OutOfFuel s2)
              with cards_loop_fuel show ?thesis by blast
            qed
          qed
        qed
      qed
    qed
  qed
qed


lemma get_cards_loop_goods_count:
  "goods_count (state_of (get_cards_loop fuel E p s)) = goods_count s"
proof (rule get_cards_loop_rule
    [where R = "\<lambda>p s out. goods_count (state_of out) = goods_count s"])
  fix p u s2 out and s :: parser
  assume "cards_loop E (Suc p) (page_cards E (Suc p)) (s\<lparr>requested := requested s @ [u]\<rparr>) = Returned s2"
    and "goods_count (state_of out) = goods_count s2"
  then show "goods_count (state_of out) = goods_count s"
    using cards_loop_keeps [of E "Suc p" "page_cards E (Suc p)" "s\<lparr>requested := requested s @ [u]\<rparr>"]
    by simp
next
  fix p u e s2 and s :: parser
  assume "cards_loop E (Suc p) (page_cards E (Suc p)) (s\<lparr>requested := requested s @ [u]\<rparr>) = Raised e s2"
  then show "goods_count (state_of (Raised e s2)) = goods_count s"
    using cards_loop_keeps [of E "Suc p" "page_cards E (Suc p)" "s\<lparr>requested := requested s @ [u]\<rparr>"]
    by simp
qed simp_all

lemma get_cards_loop_records:
  "length (card_data s) \<le> nat (goods_count s) \<Longrightarrow>
   \<exists>n. card_data (state_of (get_cards_loop fuel E p s)) =
        take (nat (goods_count s))
          (card_data s @ concat (map (\<lambda>k. records_of E (page_cards E k)) [Suc p..<Suc p + n]))"
proof (rule get_cards_loop_rule
    [where R = "\<lambda>p s out. length (card_data s) \<le> nat (goods_count s) \<longrightarrow>
       (\<exists>n. card_data (state_of out) =
          take (nat (goods_count s))
            (card_data s @ concat (map (\<lambda>k. records_of E (page_cards E k)) [Suc p..<Suc p + n])))",
     THEN mp])
  fix p u s2 out and s :: parser
  let ?s1 = "s\<lparr>requested := requested s @ [u]\<rparr>"
  let ?g = "nat (goods_count s)"
  let ?R = "\<lambda>k. records_of E (page_cards E k)"
  assume lt: "int (length (card_data s)) < goods_count s"
    and cl: "cards_loop E (Suc p) (page_cards E (Suc p)) ?s1 = Returned s2"
    and ih: "length (card_data s2) \<le> nat (goods_count s2) \<longrightarrow>
       (\<exists>n. card_data (state_of out) =
          take (nat (goods_count s2)) (card_data s2 @ concat (map ?R [Suc (Suc p)..<Suc (Suc p) + n])))"
  have g2: "goods_count s2 = goods_count s"
    using cards_loop_keeps [of E "Suc p" "page_cards E (Suc p)" ?s1] cl by simp
  have cd2: "card_data s2 = take ?g (card_data s @ ?R (Suc p))"
    using cards_loop_records [of ?s1 E "Suc p" "page_cards E (Suc p)"] cl lt by simp
  then have "length (card_data s2) \<le> nat (goods_count s2)" using g2 by simp
  with ih obtain n where
    n: "card_data (state_of out) = take ?g (card_data s2 @ concat (map ?R [Suc (Suc p)..<Suc (Suc p) + n]))"
    using g2 by auto
  have "[Suc p..<Suc p + Suc n] = Suc p # [Suc (Suc p)..<Suc (Suc p) + n]"
    by (simp add: upt_rec)
  then have cc: "concat (map ?R [Suc p..<Suc p + Suc n]) =
      ?R (Suc p) @ concat (map ?R [Suc (Suc p)..<Suc (Suc p) + n])"
    by (simp only: list.map concat.simps)
  have "card_data (state_of out) =
      take ?g ((card_data s @ ?R (Suc p)) @ concat (map ?R [Suc (Suc p)..<Suc (Suc p) + n]))"
    unfolding n cd2 by (rule take_take_append)
  then have "card_data (state_of out) =
      take ?g (card_data s @ concat (map ?R [Suc p..<Suc p + Suc n]))"
    by (simp only: cc append_assoc)
  then show "length (card_data s) \<le> nat (goods_count s) \<longrightarrow>
       (\<exists>n. card_data (state_of out) =
          take ?g (card_data s @ concat (map ?R [Suc p..<Suc p + n])))"
    by blast
next
  fix p u e s2 and s :: parser
  let ?s1 = "s\<lparr>requested := requested s @ [u]\<rparr>"
  let ?g = "nat (goods_count s)"
  let ?R = "\<lambda>k. records_of E (page_cards E k)"
  assume lt: "int (length (card_data s)) < goods_count s"
    and cl: "cards_loop E (Suc p) (page_cards E (Suc p)) ?s1 = Raised e s2"
  have "card_data s2 = take ?g (card_data s @ ?R (Suc p))"
    using cards_loop_records [of ?s1 E "Suc p" "page_cards E (Suc p)"] cl lt by simp
  then have "card_data (state_of (Raised e s2)) =
      take ?g (card_data s @ concat (map ?R [Suc p..<Suc p + 1]))"
    by simp
  then show "length (card_data s) \<le> nat (goods_count s) \<longrightarrow>
       (\<exists>n. card_data (state_of (Raised e s2)) =
          take ?g (card_data s @ concat (map ?R [Suc p..<Suc p + n])))"
    by blast
qed (auto intro: exI [of _ 0])


lemma get_cards_loop_files:
  "\<not> aborted s \<Longrightarrow>
   (files (state_of (get_cards_loop fuel E p s)) = files s \<or> wrote s (get_cards_loop fuel E p s)) \<and>
   (aborted (state_of (get_cards_loop fuel E p s)) \<longrightarrow>
      files (state_of (get_cards_loop fuel E p s)) = files s \<and>
      (\<exists>s'. get_cards_loop fuel E p s = Returned s'))"
proof (rule get_cards_loop_rule
    [where R = "\<lambda>p s out. \<not> aborted s \<longrightarrow>
       (files (state_of out) = files s \<or> wrote s out) \<and>
       (aborted (state_of out) \<longrightarrow> files (state_of out) = files s \<and> (\<exists>s'. out = Returned s'))",
     THEN mp])
  fix p u s2 out and s :: parser
  let ?s1 = "s\<lparr>requested := requested s @ [u]\<rparr>"
  assume cl: "cards_loop E (Suc p) (page_cards E (Suc p)) ?s1 = Returned s2"
    and ih: "\<not> aborted s2 \<longrightarrow>
       (files (state_of out) = files s2 \<or> wrote s2 out) \<and>
       (aborted (state_of out) \<longrightarrow> files (state_of out) = files s2 \<and> (\<exists>s'. out = Returned s'))"
  have k: "files s2 = files s" "aborted s2 = aborted s"
    using cards_loop_keeps [of E "Suc p" "page_cards E (Suc p)" ?s1] cl
    by (simp_all add: aborted_def)
  show "\<not> aborted s \<longrightarrow>
       (files (state_of out) = files s \<or> wrote s out) \<and>
       (aborted (state_of out) \<longrightarrow> files (state_of out) = files s \<and> (\<exists>s'. out = Returned s'))"
    using ih k by (simp add: wrote_def)
next
  fix p u e s2 and s :: parser
  let ?s1 = "s\<lparr>requested := requested s @ [u]\<rparr>"
  assume cl: "cards_loop E (Suc p) (page_cards E (Suc p)) ?s1 = Raised e s2"
  have k: "files s2 = files s" "aborted s2 = aborted s"
    using cards_loop_keeps [of E "Suc p" "page_cards E (Suc p)" ?s1] cl
    by (simp_all add: aborted_def)
  show "\<not> aborted s \<longrightarrow>
       (files (state_of (Raised e s2)) = files s \<or> wrote s (Raised e s2)) \<and>
       (aborted (state_of (Raised e s2)) \<longrightarrow>
          files (state_of (Raised e s2)) = files s \<and> (\<exists>s'. Raised e s2 = Returned s'))"
    using k by simp
next
  fix p and s :: parser
  assume ge: "\<not> int (length (card_data s)) < goods_count s"
  show "\<not> aborted s \<longrightarrow>
       (files (state_of (write_results s)) = files s \<or> wrote s (write_results s)) \<and>
       (aborted (state_of (write_results s)) \<longrightarrow>
          files (state_of (write_results s)) = files s \<and> (\<exists>s'. write_results s = Returned s'))"
    using write_results_cases [of s] ge
    by (auto simp: wrote_def aborted_def)
qed (simp_all add: aborted_def)

section \<open>Facts about the extraction of a card\<close>

lemma prepare_None_iff:
  "prepare_card_data E c = Inr r \<Longrightarrow> (r = None) = (image_unresolved E c \<or> container_missing c)"
  by (auto simp: prepare_card_data_def img_url_of_def image_unresolved_def container_missing_def
        Let_def split: sum.splits option.splits if_splits)

lemma prepare_Some_D:
  "prepare_card_data E c = Inr (Some d) \<Longrightarrow>
   \<exists>cu iu npd pr.
     card_url_of E c = Inr cu \<and> img_url_of E c = Inr (Some iu) \<and>
     find_tag c ''div'' (Some ''css-u2ayx9'') = Some npd \<and> price_of npd = Inr pr \<and>
     d = [(''card_id'', str_val (get_attr c ''id'')),
          (''card_url'', str_val cu),
          (''img_url'', str_val iu),
          (''name'', (case find_tag npd ''h6'' (Some ''css-16v5mdi er34gjf0'') of
                        None \<Rightarrow> PNone | Some n \<Rightarrow> PStr (get_text n))),
          (''price'', pr),
          (''currency_unit'', PStr zl),
          (''state'', (case find_tag c ''span'' (Some ''css-3lkihg'') of
                         None \<Rightarrow> PNone | Some t \<Rightarrow> PStr (get_text t)))]"
  by (auto simp: prepare_card_data_def Let_def split: sum.splits option.splits)


lemma replace_char_del: "py_replace [a] [] t = filter (\<lambda>c. c \<noteq> a) t"
  by (induction t) auto

lemma replace_char_char: "py_replace [a] [b] t = map (\<lambda>c. if c = a then b else c) t"
  by (induction t) auto

lemma split_from_first:
  "sep = x # xs \<Longrightarrow> x \<notin> set pre \<Longrightarrow>
   split_from sep acc (pre @ sep @ rest) = (rev acc @ pre) # split_from sep [] rest"
proof (induction pre arbitrary: acc)
  case Nil
  then show ?case by (cases rest) auto
next
  case (Cons b pre)
  then show ?case by auto
qed

lemma is_digit_val: "is_digit c \<Longrightarrow> digit_val c = Some (digit_of c)"
  by (auto simp: is_digit_def digit_of_def split: option.splits)

lemma digits_tail_all:
  "list_all is_digit ds \<Longrightarrow> (r = [] \<or> (\<exists>r'. r = CHR ''.'' # r')) \<Longrightarrow>
   digits_tail (ds @ r) = (map digit_of ds, r)"
proof (induction ds)
  case Nil
  then show ?case
    by (cases r; cases "tl r") (auto simp: digit_val_def)
next
  case (Cons d ds)
  then have IH: "digits_tail (ds @ r) = (map digit_of ds, r)" and d: "digit_val d = Some (digit_of d)"
    by (auto simp: is_digit_val)
  show ?case
  proof (cases "ds @ r")
    case Nil
    with d show ?thesis by simp
  next
    case (Cons y ys)
    with d IH show ?thesis by simp
  qed
qed

lemma digitpart_all:
  "ds \<noteq> [] \<Longrightarrow> list_all is_digit ds \<Longrightarrow> (r = [] \<or> (\<exists>r'. r = CHR ''.'' # r')) \<Longrightarrow>
   digitpart (ds @ r) = Some (map digit_of ds, r)"
  by (cases ds) (auto simp: digitpart_def is_digit_val digits_tail_all)


lemma is_digit_range: "is_digit c \<Longrightarrow> 48 \<le> (of_char c :: nat) \<and> (of_char c :: nat) \<le> 57"
  by (auto simp: is_digit_def digit_val_def Let_def split: if_splits)

lemma is_digit_not:
  assumes "is_digit c"
  shows "\<not> is_space c" "c \<noteq> CHR ''-''" "c \<noteq> CHR ''+''" "c \<noteq> CHR ''.''" "c \<noteq> CHR '',''"
    "c \<noteq> CHR ''z''" "c \<noteq> CHR ''i''" "c \<noteq> CHR ''n''"
  using is_digit_range [OF assms] by (auto simp: is_space_def)

lemma lower_digit: "is_digit c \<Longrightarrow> lower (c # cs) = c # lower cs"
  using is_digit_range [of c] by (simp add: lower_def Let_def)

lemma strip_digits:
  assumes "s \<noteq> []" "is_digit (hd s)" "is_digit (last s)"
  shows "py_strip s = s"
proof -
  have 1: "dropWhile is_space s = s"
    using assms by (cases s) (auto simp: is_digit_not)
  have 2: "dropWhile is_space (rev s) = rev s"
    using assms by (cases s rule: rev_cases) (auto simp: is_digit_not)
  show ?thesis by (simp add: py_strip_def 1 2)
qed

lemma py_float_decimal:
  assumes ip: "ip \<noteq> []" "list_all is_digit ip" and fp: "list_all is_digit fp"
  shows "py_float (ip @ (if fp = [] then [] else CHR ''.'' # fp)) = Inr (Finite (decimal ip fp))"
proof -
  let ?s = "ip @ (if fp = [] then [] else CHR ''.'' # fp)"
  obtain d ds where ipc: "ip = d # ds" using ip by (cases ip) auto
  have d: "is_digit d" using ip ipc by simp
  have hd: "is_digit (hd ?s)" using ipc d by simp
  have "last ?s = (if fp = [] then last ip else last fp)" by simp
  moreover have "is_digit (last ip)" using ip by (simp add: list_all_iff)
  moreover have "fp \<noteq> [] \<Longrightarrow> is_digit (last fp)" using fp by (simp add: list_all_iff)
  ultimately have "is_digit (last ?s)" by presburger
  with hd have strip: "py_strip ?s = ?s" using ip by (intro strip_digits) simp_all
  have sg: "sign ?s = (1, ?s)"
    using is_digit_not(2,3) [OF d] by (simp add: sign_def ipc)
  have low: "lower ?s \<noteq> ''inf''" "lower ?s \<noteq> ''infinity''" "lower ?s \<noteq> ''nan''"
    using is_digit_not(7,8) [OF d] by (simp_all add: ipc lower_digit [OF d])
  have num: "number ?s = Some (map digit_of ip, map digit_of fp, [])"
  proof (cases "fp = []")
    case True
    then show ?thesis
      using digitpart_all [of ip "[]"] ip by (simp add: number_def)
  next
    case False
    have "digitpart (ip @ CHR ''.'' # fp) = Some (map digit_of ip, CHR ''.'' # fp)"
      using digitpart_all [of ip "CHR ''.'' # fp"] ip by simp
    moreover have "digitpart fp = Some (map digit_of fp, [])"
      using digitpart_all [of fp "[]"] fp False by simp
    ultimately show ?thesis using False by (simp add: number_def)
  qed
  show ?thesis
    unfolding py_float_def strip sg
    using low num by (simp add: exponent_def decimal_def)
qed

lemma map_digits_id:
  "list_all is_digit ds \<Longrightarrow> map (\<lambda>c. if c = CHR '','' then CHR ''.'' else c) ds = ds"
  by (induction ds) (auto simp: is_digit_not)

lemma price_of_text_wellformed:
  assumes "wellformed_price t ip fp rest"
  shows "price_of_text t = Inr (PFloat (Finite (decimal ip fp)))"
proof -
  let ?g = "\<lambda>c. if c = CHR '','' then CHR ''.'' else c"
  let ?b = "ip @ (if fp = [] then [] else CHR ''.'' # fp)"
  from assms have ip: "ip \<noteq> []" "list_all is_digit ip" and fp: "list_all is_digit fp"
    and t: "filter (\<lambda>c. c \<noteq> CHR '' '') t = ip @ (if fp = [] then [] else CHR '','' # fp) @ zl @ rest"
    by (simp_all add: wellformed_price_def)
  have 1: "py_replace '' '' [] t = ip @ (if fp = [] then [] else CHR '','' # fp) @ zl @ rest"
    using t by (simp add: replace_char_del)
  have 2: "py_replace '','' ''.'' (ip @ (if fp = [] then [] else CHR '','' # fp) @ zl @ rest) =
           ?b @ zl @ map ?g rest"
    using ip fp by (simp add: replace_char_char map_digits_id zl_def)
  have nz: "CHR ''z'' \<notin> set ?b"
    using ip fp by (auto simp: list_all_iff dest: is_digit_not(6))
  have 3: "split_from zl [] (?b @ zl @ map ?g rest) = ?b # split_from zl [] (map ?g rest)"
    using split_from_first [of zl "CHR ''z''" "[CHR 0xC5, CHR 0x82]" ?b "[]" "map ?g rest"] nz
    by (simp add: zl_def)
  have nonempty: "zl \<noteq> []" by (simp add: zl_def)
  show ?thesis
    unfolding price_of_text_def 1 2
    using 3 nonempty py_float_decimal [OF ip fp] by (simp add: py_split_def index0_def)
qed

lemma desk_price_wellformed: "wellformed_price desk_price ''1200'' ''50'' []"
  by (simp add: wellformed_price_def desk_price_def is_digit_def digit_val_def zl_def)

lemma decimal_desk: "decimal ''1200'' ''50'' = 2401 / 2"
  by (simp add: decimal_def digits_value_def digit_of_def digit_val_def scale10_def)

lemma get_cards_loop_done:
  "\<not> int (length (card_data s)) < goods_count s \<Longrightarrow> get_cards_loop fuel E p s = write_results s"
  by (cases fuel) simp_all

lemma cards_loop_bounded:
  "int (length (card_data s)) \<le> goods_count s \<Longrightarrow>
   int (length (card_data (state_of (cards_loop E p cs s)))) \<le> goods_count s"
  using cards_loop_records [of s E p cs] by simp

lemma get_cards_loop_bounded:
  assumes "int (length (card_data s)) \<le> goods_count s"
  shows "int (length (card_data (state_of (get_cards_loop fuel E p s)))) \<le> goods_count s"
proof -
  from assms have "length (card_data s) \<le> nat (goods_count s)" by simp
  from get_cards_loop_records [OF this, of fuel E p] obtain n where
    "card_data (state_of (get_cards_loop fuel E p s)) =
       take (nat (goods_count s))
         (card_data s @ concat (map (\<lambda>k. records_of E (page_cards E k)) [Suc p..<Suc p + n]))"
    by blast
  then have "length (card_data (state_of (get_cards_loop fuel E p s))) \<le> nat (goods_count s)"
    by simp
  moreover have "0 \<le> goods_count s" using assms by linarith
  ultimately show ?thesis by linarith
qed

lemma records_of_prepare:
  "d \<in> set (records_of E cs) \<Longrightarrow> \<exists>c. prepare_card_data E c = Inr (Some d)"
proof (induction cs)
  case Nil
  then show ?case by simp
next
  case (Cons c cs)
  show ?case
  proof (cases "prepare_card_data E c")
    case (Inl e)
    with Cons.prems show ?thesis by simp
  next
    case (Inr r)
    show ?thesis
    proof (cases r)
      case None
      with Inr Cons show ?thesis by simp
    next
      case (Some d')
      with Inr Cons show ?thesis by (cases "d' = []") auto
    qed
  qed
qed

lemma get_cards_loop_abort:
  assumes "int (length (card_data s)) < goods_count s" "page_url E (Suc p) = Inr u"
    "requests_get E p u = Inr resp"
    "status_code resp \<noteq> 200 \<or> findAll (body resp) ''div'' (Some ''css-1sw7q4x'') = []"
  shows "get_cards_loop (Suc fuel) E p s =
     Returned (s\<lparr>requested := requested s @ [u],
                 logged := logged s @
                   [if status_code resp \<noteq> 200 then Error_no_response (status_code resp)
                    else Error_no_cards]\<rparr>)"
proof -
  have pc: "status_code resp = 200 \<Longrightarrow>
      page_cards E (Suc p) = findAll (body resp) ''div'' (Some ''css-1sw7q4x'')"
    using assms(2,3) by (simp add: page_cards_def)
  show ?thesis
    using assms pc by (auto simp add: get_cards_loop_Suc simp del: get_cards_loop.simps)
qed

lemma get_cards_loop_raise:
  assumes "int (length (card_data s)) < goods_count s" "page_url E (Suc p) = Inr u"
    "requests_get E p u = Inr resp" "status_code resp = 200"
    "findAll (body resp) ''div'' (Some ''css-1sw7q4x'') = c # cs"
    "prepare_card_data E c = Inl e"
  shows "get_cards_loop (Suc fuel) E p s = Raised e (s\<lparr>requested := requested s @ [u]\<rparr>)"
proof -
  have pc: "page_cards E (Suc p) = c # cs"
    using assms(2-5) by (simp add: page_cards_def)
  show ?thesis
    using assms(1-4,6) pc by (simp add: get_cards_loop_Suc del: get_cards_loop.simps)
qed

lemma get_cards_files:
  "(files (state_of (get_cards fuel E (OlxParser g pr))) = [] \<or>
      wrote (OlxParser g pr) (get_cards fuel E (OlxParser g pr))) \<and>
   (aborted (state_of (get_cards fuel E (OlxParser g pr))) \<longrightarrow>
      files (state_of (get_cards fuel E (OlxParser g pr))) = [])"
  using get_cards_loop_files [of "OlxParser g pr" fuel E 0]
  by (simp add: get_cards_def OlxParser_def aborted_def)

lemma wrote_Returned: "wrote s out \<Longrightarrow> \<exists>s'. out = Returned s'"
  by (auto simp: wrote_def)

lemma handle_nonpositive:
  "g \<le> 0 \<Longrightarrow> handle fuel E (OlxParser g pr) = Raised IndexError (OlxParser g pr)"
  by (cases fuel)
    (simp_all add: handle_def get_cards_def OlxParser_def write_results_def index0_def)

lemma handle_Raised_files:
  assumes "handle fuel E (OlxParser g pr) = Raised e s'"
  shows "files s' = []"
proof -
  from assms have r: "get_cards fuel E (OlxParser g pr) = Raised e s'"
    by (simp add: handle_def split: outcome.splits)
  then have "\<not> wrote (OlxParser g pr) (get_cards fuel E (OlxParser g pr))"
    using wrote_Returned by fastforce
  with get_cards_files [of fuel E g pr] r show ?thesis by simp
qed

section \<open>The claims\<close>




text \<open>
  C3. The branch for the free marker compares the price node itself, not its text, with
  \<open>"Zadarmo"\<close>, so it is never taken: the text \<open>Zadarmo\<close> goes to \<open>float\<close>, which raises.
\<close>

theorem free_marker_raises:
  "price_of (container_of ''Zadarmo'') = Inl ValueError \<and>
   prepare_card_data (simple_env unavailable) (sample_card ''9'' pic ''Zadarmo'') = Inl ValueError"
  by code_simp

text \<open>
  C4. A well-formed price text is parsed to the decimal number it writes: spaces are
  removed, the comma becomes a point, the text from the currency suffix on is cut off,
  and \<open>float\<close> reads the rest. The text \<open>1 200,50\<close> with the currency suffix gives
  \<open>1200.5\<close>. In a returned record the price is \<open>None\<close> when there is no price node, and
  the parsed number of the node's text when there is one.
\<close>

theorem price_parsing:
  "(wellformed_price t ip fp rest \<longrightarrow>
      price_of_text t = Inr (PFloat (Finite (decimal ip fp)))) \<and>
   price_of_text (''1 200,50 '' @ zl) = Inr (PFloat (Finite (2401 / 2))) \<and>
   (prepare_card_data E c = Inr (Some d) \<and>
    find_tag c ''div'' (Some ''css-u2ayx9'') = Some npd \<longrightarrow>
      (find_tag npd ''p'' (Some ''css-10b0gli er34gjf0'') = None \<longrightarrow>
         map_of d ''price'' = Some PNone) \<and>
      (\<forall>pn. find_tag npd ''p'' (Some ''css-10b0gli er34gjf0'') = Some pn \<longrightarrow>
         (\<exists>v. price_of_text (get_text pn) = Inr (PFloat v) \<and>
              map_of d ''price'' = Some (PFloat v))))"
proof (intro conjI impI)
  assume "wellformed_price t ip fp rest"
  then show "price_of_text t = Inr (PFloat (Finite (decimal ip fp)))"
    by (rule price_of_text_wellformed)
next
  show "price_of_text (''1 200,50 '' @ zl) = Inr (PFloat (Finite (2401 / 2)))"
    using price_of_text_wellformed [OF desk_price_wellformed]
    by (simp add: decimal_desk desk_price_def)
next
  assume a: "prepare_card_data E c = Inr (Some d) \<and>
    find_tag c ''div'' (Some ''css-u2ayx9'') = Some npd"
  from prepare_Some_D [of E c d] a obtain pr where
    pr: "price_of npd = Inr pr" and dp: "map_of d ''price'' = Some pr"
    by auto
  {
    assume "find_tag npd ''p'' (Some ''css-10b0gli er34gjf0'') = None"
    then show "map_of d ''price'' = Some PNone"
      using pr dp by (simp add: price_of_def)
  next
    show "\<forall>pn. find_tag npd ''p'' (Some ''css-10b0gli er34gjf0'') = Some pn \<longrightarrow>
         (\<exists>v. price_of_text (get_text pn) = Inr (PFloat v) \<and>
              map_of d ''price'' = Some (PFloat v))"
      using pr dp
      by (auto simp: price_of_def tag_eq_str_def price_of_text_def split: sum.splits)
  }
qed

theorem price_parsing_witness:
  "wellformed_price (''1 200,50 '' @ zl) ''1200'' ''50'' [] \<and>
   price_of_text (''1 200,50 '' @ zl) = Inr (PFloat (Finite (decimal ''1200'' ''50''))) \<and>
   (\<exists>d. prepare_card_data (simple_env unavailable) (sample_card ''101'' pic (''1 200,50 '' @ zl)) =
          Inr (Some d) \<and>
        map_of d ''price'' = Some (PFloat (Finite (2401 / 2)))) \<and>
   (\<exists>d. prepare_card_data (simple_env unavailable) bare_card = Inr (Some d) \<and>
        map_of d ''price'' = Some PNone)"
proof -
  let ?E = "simple_env unavailable"
  let ?t = "''1 200,50 '' @ zl"
  let ?c = "sample_card ''101'' pic ?t"
  let ?pn = "Tag ''p'' [] [''css-10b0gli'', ''er34gjf0''] [Text ?t]"
  let ?d = "[(''card_id'', PStr ''101''),
        (''card_url'', PStr ''https://www.olx.pl/d/oferta/101''),
        (''img_url'', PStr ''https://img.cdn/pic.jpg''),
        (''name'', PStr ''Desk''), (''price'', PFloat (Finite (2401 / 2))),
        (''currency_unit'', PStr zl),
        (''state'', PStr ''Used'')]"
  let ?b = "[(''card_id'', PNone), (''card_url'', PNone), (''img_url'', PNone),
        (''name'', PNone), (''price'', PNone), (''currency_unit'', PStr zl),
        (''state'', PNone)]"
  have wf: "wellformed_price ?t ''1200'' ''50'' []"
    using desk_price_wellformed by (simp add: desk_price_def)
  have 1: "price_of_text ?t = Inr (PFloat (Finite (decimal ''1200'' ''50'')))"
    using price_parsing [of ?t "''1200''" "''50''" "[]"] wf by blast
  have c: "prepare_card_data ?E ?c = Inr (Some ?d)" by code_simp
  have npd: "find_tag ?c ''div'' (Some ''css-u2ayx9'') = Some (container_of ?t)" by code_simp
  have pn: "find_tag (container_of ?t) ''p'' (Some ''css-10b0gli er34gjf0'') = Some ?pn"
    by code_simp
  have gt: "get_text ?pn = ?t" by simp
  have "\<exists>v. price_of_text (get_text ?pn) = Inr (PFloat v) \<and> map_of ?d ''price'' = Some (PFloat v)"
    using price_parsing [of ?t "''1200''" "''50''" "[]" ?E ?c ?d "container_of ?t"] c npd pn
    by blast
  then have 2: "map_of ?d ''price'' = Some (PFloat (Finite (2401 / 2)))"
    using price_parsing [of ?t "''1200''" "''50''" "[]" ?E ?c ?d "container_of ?t"]
    unfolding gt by auto
  have b: "prepare_card_data ?E bare_card = Inr (Some ?b)" by code_simp
  have bn: "find_tag bare_card ''div'' (Some ''css-u2ayx9'') = Some (Tag ''div'' [] [''css-u2ayx9''] [])"
    by code_simp
  have bp: "find_tag (Tag ''div'' [] [''css-u2ayx9''] []) ''p'' (Some ''css-10b0gli er34gjf0'') = None"
    by code_simp
  have 3: "map_of ?b ''price'' = Some PNone"
    using price_parsing [of ?t "''1200''" "''50''" "[]" ?E bare_card ?b "Tag ''div'' [] [''css-u2ayx9''] []"]
      b bn bp by blast
  from wf 1 c 2 b 3 show ?thesis by blast
qed

text \<open>
  C5. \<open>is_url\<close> is truthy exactly when the string loads as a URL with a non-empty host.
  A card whose anchor link is not accepted by \<open>is_url\<close> gets as \<open>card_url\<close> the URL that
  \<open>get_url\<close> builds from \<open>BASE_URL\<close> with the link as path: it has the scheme and host of
  \<open>BASE_URL\<close>, and the card is not dropped for it. A card whose image source is present
  and not accepted by \<open>is_url\<close> is dropped.
\<close>

theorem link_policy:
  "((\<exists>h. is_url E u = Inr h \<and> truthy_str h) =
      (\<exists>f h. furl_new E u = Inr f \<and> furl_host f = Some h \<and> h \<noteq> [])) \<and>
   (find_tag c ''a'' None = Some a \<and> is_url E (get_attr a ''href'') = Inr h \<and>
    \<not> truthy_str h \<and> furl_new E (Some BASE_URL) = Inr b \<longrightarrow>
      (\<exists>f. get_url E BASE_URL (get_attr a ''href'') None = Inr (furl_url E f) \<and>
           furl_scheme f = furl_scheme b \<and> furl_host f = furl_host b \<and>
           (truthy_str (get_attr a ''href'') \<longrightarrow> get_attr a ''href'' = Some (furl_path f)) \<and>
           card_url_of E c = Inr (Some (furl_url E f)) \<and>
           (\<forall>d. prepare_card_data E c = Inr (Some d) \<longrightarrow>
                map_of d ''card_url'' = Some (PStr (furl_url E f)))) \<and>
      (prepare_card_data E c = Inr None \<longrightarrow> image_unresolved E c \<or> container_missing c)) \<and>
   (find_tag c ''img'' None = Some i \<and> get_attr i ''src'' = Some s \<and>
    is_url E (Some s) = Inr h' \<and> \<not> truthy_str h' \<and> card_url_of E c = Inr cu \<longrightarrow>
      prepare_card_data E c = Inr None)"
proof (intro conjI impI)
  show "(\<exists>h. is_url E u = Inr h \<and> truthy_str h) =
      (\<exists>f h. furl_new E u = Inr f \<and> furl_host f = Some h \<and> h \<noteq> [])"
  proof (cases "furl_new E u")
    case (Inl e)
    then show ?thesis by (simp add: is_url_def)
  next
    case (Inr f)
    then show ?thesis by (cases "furl_host f") (simp_all add: is_url_def)
  qed
next
  assume a: "find_tag c ''a'' None = Some a \<and> is_url E (get_attr a ''href'') = Inr h \<and>
    \<not> truthy_str h \<and> furl_new E (Some BASE_URL) = Inr b"
  let ?f = "case get_attr a ''href'' of None \<Rightarrow> b
            | Some p \<Rightarrow> if p \<noteq> [] then set_path b p else b"
  have g: "get_url E BASE_URL (get_attr a ''href'') None = Inr (furl_url E ?f)"
    using a by (simp add: get_url_def Let_def)
  have cu: "card_url_of E c = Inr (Some (furl_url E ?f))"
    using a g by (simp add: card_url_of_def)
  have sh: "furl_scheme ?f = furl_scheme b \<and> furl_host ?f = furl_host b"
    by (simp add: set_path_def split: option.splits)
  have p: "truthy_str (get_attr a ''href'') \<longrightarrow> get_attr a ''href'' = Some (furl_path ?f)"
    by (cases "get_attr a ''href''") (simp_all add: set_path_def)
  have d: "\<forall>d. prepare_card_data E c = Inr (Some d) \<longrightarrow>
                map_of d ''card_url'' = Some (PStr (furl_url E ?f))"
  proof (intro allI impI)
    fix d assume "prepare_card_data E c = Inr (Some d)"
    from prepare_Some_D [OF this] cu show "map_of d ''card_url'' = Some (PStr (furl_url E ?f))"
      by auto
  qed
  from g sh p cu d
  show "\<exists>f. get_url E BASE_URL (get_attr a ''href'') None = Inr (furl_url E f) \<and>
           furl_scheme f = furl_scheme b \<and> furl_host f = furl_host b \<and>
           (truthy_str (get_attr a ''href'') \<longrightarrow> get_attr a ''href'' = Some (furl_path f)) \<and>
           card_url_of E c = Inr (Some (furl_url E f)) \<and>
           (\<forall>d. prepare_card_data E c = Inr (Some d) \<longrightarrow>
                map_of d ''card_url'' = Some (PStr (furl_url E f)))"
    by blast
next
  assume "prepare_card_data E c = Inr None"
  then show "image_unresolved E c \<or> container_missing c"
    using prepare_None_iff [of E c None] by simp
next
  assume "find_tag c ''img'' None = Some i \<and> get_attr i ''src'' = Some s \<and>
    is_url E (Some s) = Inr h' \<and> \<not> truthy_str h' \<and> card_url_of E c = Inr cu"
  then show "prepare_card_data E c = Inr None"
    by (simp add: prepare_card_data_def img_url_of_def)
qed


theorem link_policy_witness:
  "(\<exists>h. is_url (simple_env unavailable) (Some ''https://x.com/y'') = Inr h \<and> truthy_str h) \<and>
   is_url (simple_env unavailable) (Some ''/d/oferta/101'') = Inr None \<and>
   (\<exists>f. card_url_of (simple_env unavailable) (sample_card ''101'' pic desk_price) =
          Inr (Some (furl_url (simple_env unavailable) f)) \<and>
        furl_host f = Some ''www.olx.pl'') \<and>
   card_url_of (simple_env unavailable) (sample_card ''101'' pic desk_price) =
     Inr (Some ''https://www.olx.pl/d/oferta/101'') \<and>
   is_url (simple_env unavailable) (Some ''/rel/path.jpg'') = Inr None \<and>
   prepare_card_data (simple_env unavailable) (sample_card ''7'' [(''src'', ''/rel/path.jpg'')] desk_price)
     = Inr None"
proof -
  let ?E = "simple_env unavailable"
  let ?c = "sample_card ''101'' pic desk_price"
  let ?a = "anchor_of ''101'' pic desk_price"
  let ?b = "\<lparr>furl_scheme = Some ''https'', furl_host = Some ''www.olx.pl'', furl_path = [],
             furl_args = []\<rparr>"
  let ?r = "sample_card ''7'' [(''src'', ''/rel/path.jpg'')] desk_price"
  let ?i = "image_of [(''src'', ''/rel/path.jpg'')]"
  have "furl_new ?E (Some ''https://x.com/y'') =
          Inr \<lparr>furl_scheme = Some ''https'', furl_host = Some ''x.com'', furl_path = ''/y'',
               furl_args = []\<rparr>"
    by code_simp
  then have "\<exists>f h. furl_new ?E (Some ''https://x.com/y'') = Inr f \<and> furl_host f = Some h \<and> h \<noteq> []"
    by simp
  then have 1: "\<exists>h. is_url ?E (Some ''https://x.com/y'') = Inr h \<and> truthy_str h"
    using link_policy [where E = ?E and u = "Some ''https://x.com/y''"] by blast
  have fa: "find_tag ?c ''a'' None = Some ?a" by code_simp
  have href: "get_attr ?a ''href'' = Some ''/d/oferta/101''" by code_simp
  have rel: "is_url ?E (Some ''/d/oferta/101'') = Inr None" by code_simp
  have base: "furl_new ?E (Some BASE_URL) = Inr ?b" by code_simp
  have rel': "is_url ?E (get_attr ?a ''href'') = Inr None" using href rel by simp
  have nt: "\<not> truthy_str None" by simp
  have "\<exists>f. card_url_of ?E ?c = Inr (Some (furl_url ?E f)) \<and> furl_host f = furl_host ?b"
    using link_policy [where E = ?E and c = ?c and a = ?a and h = None and b = ?b]
      fa rel' nt base by blast
  then have 2: "\<exists>f. card_url_of ?E ?c = Inr (Some (furl_url ?E f)) \<and> furl_host f = Some ''www.olx.pl''"
    by simp
  have 3: "card_url_of ?E ?c = Inr (Some ''https://www.olx.pl/d/oferta/101'')" by code_simp
  have fi: "find_tag ?r ''img'' None = Some ?i" by code_simp
  have src: "get_attr ?i ''src'' = Some ''/rel/path.jpg''" by code_simp
  have ri: "is_url ?E (Some ''/rel/path.jpg'') = Inr None" by code_simp
  have cu: "card_url_of ?E ?r = Inr (Some ''https://www.olx.pl/d/oferta/7'')" by code_simp
  have 4: "prepare_card_data ?E ?r = Inr None"
    using link_policy [where E = ?E and c = ?r and i = ?i and s = "''/rel/path.jpg''"
        and h' = None and cu = "Some ''https://www.olx.pl/d/oferta/7''"]
      fi src ri nt cu by blast
  from 1 rel 2 3 ri 4 show ?thesis by blast
qed

text \<open>
  C2. The bound on the result set is an invariant of both loops: it holds of a new
  \<open>OlxParser\<close> with a target that is not negative, and the loop over the cards of a page
  and the loop over the pages keep it, wherever they stop. With target 3 and two pages
  of two cards each, of which the first three are usable, the run returns with exactly
  the records of these three, in this order, and writes them.
\<close>

theorem result_set_bounded:
  "(0 \<le> g \<longrightarrow> int (length (card_data (OlxParser g pr))) \<le> goods_count (OlxParser g pr)) \<and>
   (int (length (card_data s)) \<le> goods_count s \<longrightarrow>
      int (length (card_data (state_of (cards_loop E p cs s)))) \<le> goods_count s \<and>
      int (length (card_data (state_of (get_cards_loop fuel E p s)))) \<le> goods_count s) \<and>
   (0 \<le> g \<longrightarrow> int (length (card_data (state_of (get_cards fuel E (OlxParser g pr))))) \<le> g) \<and>
   (get_url E OFERTY_URL None None = Inr u1 \<and> requests_get E 0 u1 = Inr r1 \<and>
    status_code r1 = 200 \<and> findAll (body r1) ''div'' (Some ''css-1sw7q4x'') = [a, b] \<and>
    prepare_card_data E a = Inr (Some da) \<and> prepare_card_data E b = Inr (Some db) \<and>
    get_url E OFERTY_URL None (Some [(''page'', PInt 2)]) = Inr u2 \<and>
    requests_get E 1 u2 = Inr r2 \<and> status_code r2 = 200 \<and>
    findAll (body r2) ''div'' (Some ''css-1sw7q4x'') = [c, d] \<and>
    prepare_card_data E c = Inr (Some dc) \<longrightarrow>
      (\<exists>s'. get_cards (Suc (Suc fuel)) E (OlxParser 3 pr) = Returned s' \<and>
            card_data s' = [da, db, dc] \<and> requested s' = [u1, u2] \<and>
            files s' = [(field_names, [da, db, dc])]))"
proof (intro conjI impI)
  assume "0 \<le> g"
  then show "int (length (card_data (OlxParser g pr))) \<le> goods_count (OlxParser g pr)"
    by (simp add: OlxParser_def)
next
  assume "int (length (card_data s)) \<le> goods_count s"
  then show "int (length (card_data (state_of (cards_loop E p cs s)))) \<le> goods_count s"
    by (rule cards_loop_bounded)
next
  assume "int (length (card_data s)) \<le> goods_count s"
  then show "int (length (card_data (state_of (get_cards_loop fuel E p s)))) \<le> goods_count s"
    by (rule get_cards_loop_bounded)
next
  assume "0 \<le> g"
  then show "int (length (card_data (state_of (get_cards fuel E (OlxParser g pr))))) \<le> g"
    using get_cards_loop_bounded [of "OlxParser g pr" fuel E 0]
    by (simp add: get_cards_def OlxParser_def)
next
  assume h: "get_url E OFERTY_URL None None = Inr u1 \<and> requests_get E 0 u1 = Inr r1 \<and>
    status_code r1 = 200 \<and> findAll (body r1) ''div'' (Some ''css-1sw7q4x'') = [a, b] \<and>
    prepare_card_data E a = Inr (Some da) \<and> prepare_card_data E b = Inr (Some db) \<and>
    get_url E OFERTY_URL None (Some [(''page'', PInt 2)]) = Inr u2 \<and>
    requests_get E 1 u2 = Inr r2 \<and> status_code r2 = 200 \<and>
    findAll (body r2) ''div'' (Some ''css-1sw7q4x'') = [c, d] \<and>
    prepare_card_data E c = Inr (Some dc)"
  have ne: "da \<noteq> []" "db \<noteq> []" "dc \<noteq> []" and fa: "map fst da = field_names"
    using h prepare_fields [of E a da] prepare_fields [of E b db] prepare_fields [of E c dc]
    by (auto simp: field_names_def)
  let ?s0 = "OlxParser 3 pr"
  let ?s1 = "?s0\<lparr>requested := [u1]\<rparr>"
  have p1: "\<exists>s2. cards_loop E (Suc 0) [a, b] ?s1 = Returned s2 \<and> card_data s2 = [da, db] \<and>
              requested s2 = [u1] \<and> goods_count s2 = 3 \<and> files s2 = []"
    using h ne by (simp add: OlxParser_def Let_def)
  then obtain s2 where s2: "cards_loop E (Suc 0) [a, b] ?s1 = Returned s2"
    "card_data s2 = [da, db]" "requested s2 = [u1]" "goods_count s2 = 3" "files s2 = []"
    by blast
  let ?s3 = "s2\<lparr>requested := requested s2 @ [u2]\<rparr>"
  have p2: "\<exists>s4. cards_loop E (Suc (Suc 0)) [c, d] ?s3 = Returned s4 \<and> card_data s4 = [da, db, dc] \<and>
              requested s4 = [u1, u2] \<and> goods_count s4 = 3 \<and> files s4 = []"
    using h ne s2 by (simp add: Let_def)
  then obtain s4 where s4: "cards_loop E (Suc (Suc 0)) [c, d] ?s3 = Returned s4"
    "card_data s4 = [da, db, dc]" "requested s4 = [u1, u2]" "goods_count s4 = 3" "files s4 = []"
    by blast
  have w: "get_cards_loop fuel E (Suc (Suc 0)) s4 = write_results s4"
    using s4 by (intro get_cards_loop_done) simp
  have step2: "get_cards_loop (Suc fuel) E (Suc 0) s2 = write_results s4"
    using h s2 s4 w by (simp add: Let_def)
  have step1: "get_cards (Suc (Suc fuel)) E ?s0 = write_results s4"
    using h s2 step2 by (simp add: get_cards_def OlxParser_def Let_def del: get_cards_loop.simps(2))
      (simp add: OlxParser_def Let_def)
  show "\<exists>s'. get_cards (Suc (Suc fuel)) E (OlxParser 3 pr) = Returned s' \<and>
            card_data s' = [da, db, dc] \<and> requested s' = [u1, u2] \<and>
            files s' = [(field_names, [da, db, dc])]"
    unfolding step1 using s4 fa by (simp add: write_results_def index0_def)
qed

theorem result_set_bounded_witness:
  "(0::int) \<le> 3 \<and>
   int (length (card_data (state_of (get_cards (Suc (Suc 0)) (simple_env two_pages) (OlxParser 3 False))))) \<le> 3 \<and>
   (\<exists>s'. get_cards (Suc (Suc 0)) (simple_env two_pages) (OlxParser 3 False) = Returned s' \<and>
         map (\<lambda>d. map_of d ''card_id'') (card_data s') =
           [Some (PStr ''101''), Some (PStr ''102''), Some (PStr ''201'')] \<and>
         requested s' = [OFERTY_URL, OFERTY_URL @ ''&page=2''])"
proof -
  let ?E = "simple_env two_pages"
  let ?a = "sample_card ''101'' pic desk_price"
  let ?b = "sample_card ''102'' pic (''15 '' @ zl)"
  let ?c = "sample_card ''201'' pic (''7,5'' @ zl)"
  let ?d = "sample_card ''202'' pic (''8 '' @ zl)"
  let ?da = "[(''card_id'', PStr ''101''),
         (''card_url'', PStr ''https://www.olx.pl/d/oferta/101''),
         (''img_url'', PStr ''https://img.cdn/pic.jpg''),
         (''name'', PStr ''Desk''), (''price'', PFloat (Finite (2401 / 2))),
         (''currency_unit'', PStr zl), (''state'', PStr ''Used'')]"
  let ?db = "[(''card_id'', PStr ''102''),
         (''card_url'', PStr ''https://www.olx.pl/d/oferta/102''),
         (''img_url'', PStr ''https://img.cdn/pic.jpg''),
         (''name'', PStr ''Desk''), (''price'', PFloat (Finite 15)),
         (''currency_unit'', PStr zl), (''state'', PStr ''Used'')]"
  let ?dc = "[(''card_id'', PStr ''201''),
         (''card_url'', PStr ''https://www.olx.pl/d/oferta/201''),
         (''img_url'', PStr ''https://img.cdn/pic.jpg''),
         (''name'', PStr ''Desk''), (''price'', PFloat (Finite (15 / 2))),
         (''currency_unit'', PStr zl), (''state'', PStr ''Used'')]"
  let ?u2 = "OFERTY_URL @ ''&page=2''"
  have b0: "(0::int) \<le> 3" by simp
  have b1: "int (length (card_data (state_of (get_cards (Suc (Suc 0)) ?E (OlxParser 3 False))))) \<le> 3"
    by (rule result_set_bounded [THEN conjunct2, THEN conjunct2, THEN conjunct1, THEN mp, OF b0])
  have h1: "get_url ?E OFERTY_URL None None = Inr OFERTY_URL" by code_simp
  have h2: "requests_get ?E 0 OFERTY_URL = Inr (page_of [?a, ?b])" by code_simp
  have h3: "status_code (page_of [?a, ?b]) = 200" by code_simp
  have h4: "findAll (body (page_of [?a, ?b])) ''div'' (Some ''css-1sw7q4x'') = [?a, ?b]"
    by code_simp
  have h5: "prepare_card_data ?E ?a = Inr (Some ?da)" by code_simp
  have h6: "prepare_card_data ?E ?b = Inr (Some ?db)" by code_simp
  have h7: "get_url ?E OFERTY_URL None (Some [(''page'', PInt 2)]) = Inr ?u2" by code_simp
  have h8: "requests_get ?E 1 ?u2 = Inr (page_of [?c, ?d])" by code_simp
  have h9: "status_code (page_of [?c, ?d]) = 200" by code_simp
  have h10: "findAll (body (page_of [?c, ?d])) ''div'' (Some ''css-1sw7q4x'') = [?c, ?d]"
    by code_simp
  have h11: "prepare_card_data ?E ?c = Inr (Some ?dc)" by code_simp
  have hyp: "get_url ?E OFERTY_URL None None = Inr OFERTY_URL \<and>
    requests_get ?E 0 OFERTY_URL = Inr (page_of [?a, ?b]) \<and>
    status_code (page_of [?a, ?b]) = 200 \<and>
    findAll (body (page_of [?a, ?b])) ''div'' (Some ''css-1sw7q4x'') = [?a, ?b] \<and>
    prepare_card_data ?E ?a = Inr (Some ?da) \<and> prepare_card_data ?E ?b = Inr (Some ?db) \<and>
    get_url ?E OFERTY_URL None (Some [(''page'', PInt 2)]) = Inr ?u2 \<and>
    requests_get ?E 1 ?u2 = Inr (page_of [?c, ?d]) \<and> status_code (page_of [?c, ?d]) = 200 \<and>
    findAll (body (page_of [?c, ?d])) ''div'' (Some ''css-1sw7q4x'') = [?c, ?d] \<and>
    prepare_card_data ?E ?c = Inr (Some ?dc)"
    apply (intro conjI)
              apply (rule h1)
             apply (rule h2)
            apply (rule h3)
           apply (rule h4)
          apply (rule h5)
         apply (rule h6)
        apply (rule h7)
       apply (rule h8)
      apply (rule h9)
     apply (rule h10)
    apply (rule h11)
    done
  have ex: "\<exists>s'. get_cards (Suc (Suc 0)) ?E (OlxParser 3 False) = Returned s' \<and>
            card_data s' = [?da, ?db, ?dc] \<and> requested s' = [OFERTY_URL, ?u2] \<and>
            files s' = [(field_names, [?da, ?db, ?dc])]"
    by (rule result_set_bounded [THEN conjunct2, THEN conjunct2, THEN conjunct2, THEN mp, OF hyp])
  from ex obtain s' where s': "get_cards (Suc (Suc 0)) ?E (OlxParser 3 False) = Returned s'"
    and cd: "card_data s' = [?da, ?db, ?dc]" and rq: "requested s' = [OFERTY_URL, ?u2]"
    by blast
  have ids: "map (\<lambda>d. map_of d ''card_id'') (card_data s') =
           [Some (PStr ''101''), Some (PStr ''102''), Some (PStr ''201'')]"
    unfolding cd by simp
  have e: "\<exists>s'. get_cards (Suc (Suc 0)) ?E (OlxParser 3 False) = Returned s' \<and>
         map (\<lambda>d. map_of d ''card_id'') (card_data s') =
           [Some (PStr ''101''), Some (PStr ''102''), Some (PStr ''201'')] \<and>
         requested s' = [OFERTY_URL, OFERTY_URL @ ''&page=2'']"
    apply (rule exI [where x = s'])
    apply (intro conjI)
      apply (rule s')
     apply (rule ids)
    apply (rule rq)
    done
  show ?thesis
    apply (intro conjI)
      apply (rule b0)
     apply (rule b1)
    apply (rule e)
    done
qed

text \<open>
  C9. The result set is the concatenation, page after page in the order of the requests,
  of the records of each page's usable cards in document order, cut at the target.
\<close>

theorem result_set_order:
  "\<exists>n. card_data (state_of (get_cards fuel E (OlxParser g pr))) =
        take (nat g) (concat (map (\<lambda>k. records_of E (page_cards E k)) [1..<Suc n]))"
  using get_cards_loop_records [of "OlxParser g pr" fuel E 0]
  by (simp add: get_cards_def OlxParser_def)

theorem result_set_order_witness:
  "card_data (state_of (get_cards 2 (simple_env two_pages) (OlxParser 3 False))) =
     take 3 (records_of (simple_env two_pages) (page_cards (simple_env two_pages) 1) @
             records_of (simple_env two_pages) (page_cards (simple_env two_pages) 2))"
proof -
  let ?E = "simple_env two_pages"
  have l: "length (card_data (state_of (get_cards 2 ?E (OlxParser 3 False)))) = 3" by code_simp
  have r0: "length (records_of ?E (page_cards ?E 1)) = 2" by code_simp
  have r1: "length (records_of ?E (page_cards ?E 2)) = 2" by code_simp
  from result_set_order [of 2 ?E 3 False] obtain n where
    n: "card_data (state_of (get_cards 2 ?E (OlxParser 3 False))) =
        take (nat 3) (concat (map (\<lambda>k. records_of ?E (page_cards ?E k)) [1..<Suc n]))"
    by blast
  have e: "card_data (state_of (get_cards 2 ?E (OlxParser 3 False))) =
     take 3 (records_of ?E (page_cards ?E 1) @ records_of ?E (page_cards ?E 2))"
    by code_simp
  from n e show ?thesis by simp
qed

text \<open>
  C10. Every record in the result set has exactly the seven fields, in this order, and
  its currency unit is the literal. The completeness check changes nothing but the log,
  and the record that extraction returned is appended as it is, whatever the check found.
\<close>

theorem appended_records_shape:
  "(\<forall>d \<in> set (card_data (state_of (get_cards fuel E (OlxParser g pr)))).
      map fst d = field_names \<and> map_of d ''currency_unit'' = Some (PStr zl)) \<and>
   check_data s d = s\<lparr>logged := logged (check_data s d)\<rparr> \<and>
   (prepare_card_data E c = Inr (Some d) \<and> int (length (card_data s)) \<noteq> goods_count s \<longrightarrow>
      card_data (state_of (cards_loop E p [c] s)) = card_data s @ [d])"
proof (intro conjI ballI impI)
  fix x
  assume x: "x \<in> set (card_data (state_of (get_cards fuel E (OlxParser g pr))))"
  from get_cards_loop_records [of "OlxParser g pr" fuel E 0] obtain n where
    "card_data (state_of (get_cards fuel E (OlxParser g pr))) =
       take (nat g) (concat (map (\<lambda>k. records_of E (page_cards E k)) [Suc 0..<Suc 0 + n]))"
    by (auto simp: get_cards_def OlxParser_def)
  with x have "x \<in> set (concat (map (\<lambda>k. records_of E (page_cards E k)) [Suc 0..<Suc 0 + n]))"
    by (metis in_set_takeD)
  then obtain k where "x \<in> set (records_of E (page_cards E k))" by auto
  then obtain c' where c': "prepare_card_data E c' = Inr (Some x)"
    using records_of_prepare by blast
  from prepare_fields [OF c']
  show "map fst x = field_names" and "map_of x ''currency_unit'' = Some (PStr zl)"
    by simp_all
next
  show "check_data s d = s\<lparr>logged := logged (check_data s d)\<rparr>"
    by (simp add: check_data_def)
next
  assume a: "prepare_card_data E c = Inr (Some d) \<and> int (length (card_data s)) \<noteq> goods_count s"
  then have "d \<noteq> []" using prepare_fields [of E c d] by (auto simp: field_names_def)
  with a show "card_data (state_of (cards_loop E p [c] s)) = card_data s @ [d]"
    by (simp add: Let_def)
qed

theorem appended_records_shape_witness:
  "list_all (\<lambda>d. map fst d = field_names \<and> map_of d ''currency_unit'' = Some (PStr zl))
     (card_data (state_of (get_cards 2 (simple_env two_pages) (OlxParser 3 False)))) \<and>
   card_data (state_of (get_cards 2 (simple_env two_pages) (OlxParser 3 False))) \<noteq> [] \<and>
   \<not> list_all truthy (map snd
      [(''card_id'', PNone), (''card_url'', PNone), (''img_url'', PNone),
       (''name'', PNone), (''price'', PNone), (''currency_unit'', PStr zl),
       (''state'', PNone)]) \<and>
   card_data (state_of (cards_loop (simple_env two_pages) 1 [bare_card] (OlxParser 3 False))) =
     [[(''card_id'', PNone), (''card_url'', PNone), (''img_url'', PNone),
       (''name'', PNone), (''price'', PNone), (''currency_unit'', PStr zl),
       (''state'', PNone)]]"
proof -
  let ?E = "simple_env two_pages"
  let ?b = "[(''card_id'', PNone), (''card_url'', PNone), (''img_url'', PNone),
       (''name'', PNone), (''price'', PNone), (''currency_unit'', PStr zl),
       (''state'', PNone)]"
  have 1: "list_all (\<lambda>d. map fst d = field_names \<and> map_of d ''currency_unit'' = Some (PStr zl))
     (card_data (state_of (get_cards 2 ?E (OlxParser 3 False))))"
    unfolding list_all_iff using appended_records_shape [of 2 ?E 3 False] by blast
  have 2: "card_data (state_of (get_cards 2 ?E (OlxParser 3 False))) \<noteq> []" by code_simp
  have 3: "\<not> list_all truthy (map snd ?b)" by simp
  have p: "prepare_card_data ?E bare_card = Inr (Some ?b)" by code_simp
  have g: "int (length (card_data (OlxParser 3 False))) \<noteq> goods_count (OlxParser 3 False)"
    by (simp add: OlxParser_def)
  have "card_data (state_of (cards_loop ?E 1 [bare_card] (OlxParser 3 False))) =
          card_data (OlxParser 3 False) @ [?b]"
    using appended_records_shape [where E = ?E and c = bare_card and d = ?b
        and s = "OlxParser 3 False" and p = 1] p g by blast
  then have 4: "card_data (state_of (cards_loop ?E 1 [bare_card] (OlxParser 3 False))) = [?b]"
    by (simp add: OlxParser_def)
  from 1 2 3 4 show ?thesis by blast
qed

text \<open>
  C6. A page that is answered with a status other than 200, or that has no card node,
  ends the loop at once: the run returns with an error logged, the records and the
  files as they were. A run that logged an error has written no file; a run that
  wrote a file returned with the target met and no error logged.
\<close>

theorem no_write_after_abort:
  "(int (length (card_data s)) < goods_count s \<and> page_url E (Suc p) = Inr u \<and>
    requests_get E p u = Inr resp \<and>
    (status_code resp \<noteq> 200 \<or> findAll (body resp) ''div'' (Some ''css-1sw7q4x'') = []) \<longrightarrow>
      (\<exists>s'. get_cards_loop (Suc fuel) E p s = Returned s' \<and> aborted s' \<and>
            card_data s' = card_data s \<and> files s' = files s)) \<and>
   (aborted (state_of (get_cards fuel E (OlxParser g pr))) \<longrightarrow>
      files (state_of (get_cards fuel E (OlxParser g pr))) = []) \<and>
   (files (state_of (get_cards fuel E (OlxParser g pr))) \<noteq> [] \<longrightarrow>
      wrote (OlxParser g pr) (get_cards fuel E (OlxParser g pr)))"
proof (intro conjI impI)
  assume a: "int (length (card_data s)) < goods_count s \<and> page_url E (Suc p) = Inr u \<and>
    requests_get E p u = Inr resp \<and>
    (status_code resp \<noteq> 200 \<or> findAll (body resp) ''div'' (Some ''css-1sw7q4x'') = [])"
  then have "get_cards_loop (Suc fuel) E p s =
     Returned (s\<lparr>requested := requested s @ [u],
                 logged := logged s @
                   [if status_code resp \<noteq> 200 then Error_no_response (status_code resp)
                    else Error_no_cards]\<rparr>)"
    by (intro get_cards_loop_abort) simp_all
  then show "\<exists>s'. get_cards_loop (Suc fuel) E p s = Returned s' \<and> aborted s' \<and>
            card_data s' = card_data s \<and> files s' = files s"
    by (simp add: aborted_def)
next
  assume "aborted (state_of (get_cards fuel E (OlxParser g pr)))"
  then show "files (state_of (get_cards fuel E (OlxParser g pr))) = []"
    using get_cards_files [of fuel E g pr] by blast
next
  assume "files (state_of (get_cards fuel E (OlxParser g pr))) \<noteq> []"
  then show "wrote (OlxParser g pr) (get_cards fuel E (OlxParser g pr))"
    using get_cards_files [of fuel E g pr] by blast
qed


theorem no_write_after_abort_witness:
  "(\<exists>s'. get_cards_loop (Suc 0) (simple_env unavailable) 0 (OlxParser 3 False) = Returned s' \<and>
         aborted s' \<and> card_data s' = [] \<and> files s' = []) \<and>
   aborted (state_of (get_cards 1 (simple_env unavailable) (OlxParser 3 False))) \<and>
   files (state_of (get_cards 1 (simple_env unavailable) (OlxParser 3 False))) = [] \<and>
   files (state_of (get_cards 2 (simple_env two_pages) (OlxParser 3 False))) \<noteq> [] \<and>
   wrote (OlxParser 3 False) (get_cards 2 (simple_env two_pages) (OlxParser 3 False))"
proof -
  let ?U = "simple_env unavailable"
  let ?T = "simple_env two_pages"
  let ?s = "OlxParser 3 False"
  let ?r = "\<lparr>status_code = 503, body = Text []\<rparr>"
  have h: "int (length (card_data ?s)) < goods_count ?s \<and> page_url ?U (Suc 0) = Inr OFERTY_URL \<and>
    requests_get ?U 0 OFERTY_URL = Inr ?r \<and>
    (status_code ?r \<noteq> 200 \<or> findAll (body ?r) ''div'' (Some ''css-1sw7q4x'') = [])"
    by code_simp
  have "\<exists>s'. get_cards_loop (Suc 0) ?U 0 ?s = Returned s' \<and> aborted s' \<and>
            card_data s' = card_data ?s \<and> files s' = files ?s"
    by (rule no_write_after_abort [THEN conjunct1, THEN mp, OF h])
  then have 1: "\<exists>s'. get_cards_loop (Suc 0) ?U 0 ?s = Returned s' \<and> aborted s' \<and>
            card_data s' = [] \<and> files s' = []"
    by (simp add: OlxParser_def)
  have 2: "aborted (state_of (get_cards 1 ?U ?s))" by code_simp
  have 3: "files (state_of (get_cards 1 ?U ?s)) = []"
    by (rule no_write_after_abort [THEN conjunct2, THEN conjunct1, THEN mp, OF 2])
  have 4: "files (state_of (get_cards 2 ?T ?s)) \<noteq> []" by code_simp
  have 5: "wrote ?s (get_cards 2 ?T ?s)"
    by (rule no_write_after_abort [THEN conjunct2, THEN conjunct2, THEN mp, OF 4])
  show ?thesis
    apply (intro conjI)
        apply (rule 1)
       apply (rule 2)
      apply (rule 3)
     apply (rule 4)
    apply (rule 5)
    done
qed

text \<open>
  C7 as stated fails: a run with target 0 never enters the loop, and \<open>write_results\<close>
  raises \<open>IndexError\<close> on the empty result set; a price text that \<open>float\<close> rejects raises
  \<open>ValueError\<close> out of the run.
\<close>

theorem run_raises:
  "handle 1 (simple_env unavailable) (OlxParser 0 True) = Raised IndexError (OlxParser 0 True) \<and>
   handle 1 (simple_env (serving [sample_card ''5'' pic ''cena''])) (OlxParser 3 True) =
     Raised ValueError ((OlxParser 3 True)\<lparr>requested := [OFERTY_URL]\<rparr>)"
  by (simp add: OlxParser_def) code_simp


text \<open>
  C7 (amended). The two conditions the code handles, a status other than 200 and a page
  without card nodes, are logged as errors and the run returns early. An exception is
  not caught anywhere: a transport error, a price text that \<open>float\<close> rejects, and an
  empty result set at write time (a target of 0 or less) leave the run as exceptions.
  In every case no file is written.
\<close>

theorem failure_modes:
  "(int (length (card_data s)) < goods_count s \<and> page_url E (Suc p) = Inr u \<and>
    requests_get E p u = Inr resp \<and>
    (status_code resp \<noteq> 200 \<or> findAll (body resp) ''div'' (Some ''css-1sw7q4x'') = []) \<longrightarrow>
      get_cards_loop (Suc fuel) E p s =
        Returned (s\<lparr>requested := requested s @ [u],
                    logged := logged s @
                      [if status_code resp \<noteq> 200 then Error_no_response (status_code resp)
                       else Error_no_cards]\<rparr>)) \<and>
   (int (length (card_data s)) < goods_count s \<and> page_url E (Suc p) = Inr u \<and>
    requests_get E p u = Inl e \<longrightarrow>
      get_cards_loop (Suc fuel) E p s = Raised e (s\<lparr>requested := requested s @ [u]\<rparr>)) \<and>
   (find_tag c ''div'' (Some ''css-u2ayx9'') = Some npd \<and> card_url_of E c = Inr cu \<and>
    img_url_of E c = Inr (Some iu) \<and>
    find_tag npd ''p'' (Some ''css-10b0gli er34gjf0'') = Some pn \<and>
    price_of_text (get_text pn) = Inl e \<longrightarrow>
      prepare_card_data E c = Inl e) \<and>
   (int (length (card_data s)) < goods_count s \<and> page_url E (Suc p) = Inr u \<and>
    requests_get E p u = Inr resp \<and> status_code resp = 200 \<and>
    findAll (body resp) ''div'' (Some ''css-1sw7q4x'') = c # cs \<and>
    prepare_card_data E c = Inl e \<longrightarrow>
      get_cards_loop (Suc fuel) E p s = Raised e (s\<lparr>requested := requested s @ [u]\<rparr>)) \<and>
   (g \<le> 0 \<longrightarrow> handle fuel E (OlxParser g pr) = Raised IndexError (OlxParser g pr)) \<and>
   (handle fuel E (OlxParser g pr) = Raised e s' \<longrightarrow> files s' = []) \<and>
   (aborted (state_of (handle fuel E (OlxParser g pr))) \<longrightarrow>
      files (state_of (handle fuel E (OlxParser g pr))) = [])"
proof (intro conjI impI)
  assume "int (length (card_data s)) < goods_count s \<and> page_url E (Suc p) = Inr u \<and>
    requests_get E p u = Inr resp \<and>
    (status_code resp \<noteq> 200 \<or> findAll (body resp) ''div'' (Some ''css-1sw7q4x'') = [])"
  then show "get_cards_loop (Suc fuel) E p s =
        Returned (s\<lparr>requested := requested s @ [u],
                    logged := logged s @
                      [if status_code resp \<noteq> 200 then Error_no_response (status_code resp)
                       else Error_no_cards]\<rparr>)"
    by (intro get_cards_loop_abort) simp_all
next
  assume "int (length (card_data s)) < goods_count s \<and> page_url E (Suc p) = Inr u \<and>
    requests_get E p u = Inl e"
  then show "get_cards_loop (Suc fuel) E p s = Raised e (s\<lparr>requested := requested s @ [u]\<rparr>)"
    by (simp add: get_cards_loop_Suc del: get_cards_loop.simps)
next
  assume "find_tag c ''div'' (Some ''css-u2ayx9'') = Some npd \<and> card_url_of E c = Inr cu \<and>
    img_url_of E c = Inr (Some iu) \<and>
    find_tag npd ''p'' (Some ''css-10b0gli er34gjf0'') = Some pn \<and>
    price_of_text (get_text pn) = Inl e"
  then show "prepare_card_data E c = Inl e"
    by (simp add: prepare_card_data_def price_of_def tag_eq_str_def)
next
  assume "int (length (card_data s)) < goods_count s \<and> page_url E (Suc p) = Inr u \<and>
    requests_get E p u = Inr resp \<and> status_code resp = 200 \<and>
    findAll (body resp) ''div'' (Some ''css-1sw7q4x'') = c # cs \<and>
    prepare_card_data E c = Inl e"
  then show "get_cards_loop (Suc fuel) E p s = Raised e (s\<lparr>requested := requested s @ [u]\<rparr>)"
    by (intro get_cards_loop_raise [where resp = resp and c = c and cs = cs]) simp_all
next
  assume "g \<le> 0"
  then show "handle fuel E (OlxParser g pr) = Raised IndexError (OlxParser g pr)"
    by (rule handle_nonpositive)
next
  assume "handle fuel E (OlxParser g pr) = Raised e s'"
  then show "files s' = []" by (rule handle_Raised_files)
next
  assume a: "aborted (state_of (handle fuel E (OlxParser g pr)))"
  have "aborted (state_of (get_cards fuel E (OlxParser g pr)))"
    using a by (auto simp: handle_def aborted_def split: outcome.splits if_splits)
  then have "files (state_of (get_cards fuel E (OlxParser g pr))) = []"
    using get_cards_files [of fuel E g pr] by blast
  then show "files (state_of (handle fuel E (OlxParser g pr))) = []"
    by (auto simp: handle_def split: outcome.splits)
qed


theorem failure_modes_witness:
  "get_cards_loop (Suc 0) (simple_env unavailable) 0 (OlxParser 3 False) =
     Returned ((OlxParser 3 False)\<lparr>requested := [OFERTY_URL], logged := [Error_no_response 503]\<rparr>) \<and>
   handle 1 (simple_env unavailable) (OlxParser 0 True) = Raised IndexError (OlxParser 0 True) \<and>
   price_of_text ''cena'' = Inl ValueError \<and>
   prepare_card_data (simple_env unavailable) (sample_card ''5'' pic ''cena'') = Inl ValueError \<and>
   files (OlxParser 0 True) = []"
proof -
  let ?U = "simple_env unavailable"
  let ?s = "OlxParser 3 False"
  let ?r = "\<lparr>status_code = 503, body = Text []\<rparr>"
  let ?c = "sample_card ''5'' pic ''cena''"
  let ?pn = "Tag ''p'' [] [''css-10b0gli'', ''er34gjf0''] [Text ''cena'']"
  have h: "int (length (card_data ?s)) < goods_count ?s \<and> page_url ?U (Suc 0) = Inr OFERTY_URL \<and>
    requests_get ?U 0 OFERTY_URL = Inr ?r \<and>
    (status_code ?r \<noteq> 200 \<or> findAll (body ?r) ''div'' (Some ''css-1sw7q4x'') = [])"
    by code_simp
  have "get_cards_loop (Suc 0) ?U 0 ?s =
        Returned (?s\<lparr>requested := requested ?s @ [OFERTY_URL],
                    logged := logged ?s @
                      [if status_code ?r \<noteq> 200 then Error_no_response (status_code ?r)
                       else Error_no_cards]\<rparr>)"
    by (rule failure_modes [THEN conjunct1, THEN mp, OF h])
  then have 1: "get_cards_loop (Suc 0) ?U 0 ?s =
     Returned (?s\<lparr>requested := [OFERTY_URL], logged := [Error_no_response 503]\<rparr>)"
    by (simp add: OlxParser_def)
  have z: "(0::int) \<le> 0" by simp
  have 2: "handle 1 ?U (OlxParser 0 True) = Raised IndexError (OlxParser 0 True)"
    by (rule failure_modes [THEN conjunct2, THEN conjunct2, THEN conjunct2, THEN conjunct2,
          THEN conjunct1, THEN mp, OF z])
  have 3: "price_of_text ''cena'' = Inl ValueError" by code_simp
  have k: "find_tag ?c ''div'' (Some ''css-u2ayx9'') = Some (container_of ''cena'') \<and>
    card_url_of ?U ?c = Inr (Some ''https://www.olx.pl/d/oferta/5'') \<and>
    img_url_of ?U ?c = Inr (Some (Some ''https://img.cdn/pic.jpg'')) \<and>
    find_tag (container_of ''cena'') ''p'' (Some ''css-10b0gli er34gjf0'') = Some ?pn \<and>
    price_of_text (get_text ?pn) = Inl ValueError"
    by code_simp
  have 4: "prepare_card_data ?U ?c = Inl ValueError"
    by (rule failure_modes [THEN conjunct2, THEN conjunct2, THEN conjunct1, THEN mp, OF k])
  have 5: "files (OlxParser 0 True) = []"
    by (rule failure_modes [THEN conjunct2, THEN conjunct2, THEN conjunct2, THEN conjunct2,
          THEN conjunct2, THEN conjunct1, THEN mp, OF 2])
  show ?thesis
    apply (intro conjI)
        apply (rule 1)
       apply (rule 2)
      apply (rule 3)
     apply (rule 4)
    apply (rule 5)
    done
qed



end
